theory Spec2Isabelle
  imports Complex_Main "HOL-Library.Log_Nat"
begin

section \<open>Data model (src/types.ts)\<close>

text \<open>
  JavaScript numbers are IEEE 754 doubles. The timing block of a tick turns them into array
  indices, so its arithmetic is modelled with the rounding of doubles: every operation
  there rounds its exact result to the nearest double (section "Double arithmetic"). The
  values of the drawing block (progress, opacity, scale, positions) and the differences of
  clock readings are kept as exact reals: what is stated about them are formulas, branch
  conditions and bounds. Indices produced by \<open>Math.floor\<close> are integers (\<open>int\<close>), array
  lengths are \<open>nat\<close>. An optional or nullable string field is a \<open>string option\<close>; JavaScript
  truthiness of such a field (neither \<open>undefined\<close>/\<open>null\<close> nor the empty string) is \<open>truthy\<close>.
\<close>

datatype AnimationSpeed = Slow | Medium | Fast

datatype Transition = NoTransition | Fade

text \<open>The fields of \<open>VideoConfig\<close> that \<open>renderVideo\<close> reads.\<close>

record VideoConfig =
  aspectRatio :: string
  animationSpeed :: AnimationSpeed
  transition :: Transition
  bgMusicVolume :: real

record GeneratedSection =
  title :: "string option"
  generatedImages :: "string list"
  generatedAudio :: "string option"
  titleCard :: "string option"

record ProjectData =
  intro :: GeneratedSection
  parts :: "GeneratedSection list"
  config :: "VideoConfig option"
  backgroundMusic :: "string option"

definition truthy :: "string option \<Rightarrow> bool" where
  "truthy s = (case s of None \<Rightarrow> False | Some v \<Rightarrow> v \<noteq> [])"

section \<open>Double arithmetic\<close>

text \<open>
  A double has a significand of 53 bits. \<open>fl x\<close> is the double nearest to the real \<open>x\<close>, a
  tie going to the even significand (the rounding of every JavaScript operation):
  \<open>binade x\<close> is the exponent \<open>e\<close> with \<open>2\<^sup>e \<le> x < 2\<^sup>e\<^sup>+\<^sup>1\<close>, the doubles of that binade are the
  multiples of \<open>2\<^sup>e\<^sup>-\<^sup>5\<^sup>2\<close>, and \<open>roundEven\<close> rounds to the nearest integer, ties to even.
  The exponent is not bounded: a section duration is a buffer length over a sample rate, or
  the constant 5, and an elapsed time is a difference of audio clock readings, all far
  inside the normal range of doubles, so that overflow, underflow, infinities and NaN do
  not occur in the timing block and are not modelled.
\<close>

definition roundEven :: "real \<Rightarrow> int" where
  "roundEven y =
     (let f = \<lfloor>y\<rfloor>; r = y - of_int f
      in if r < 1 / 2 then f else if r > 1 / 2 then f + 1 else if even f then f else f + 1)"

definition binade :: "real \<Rightarrow> int" where
  "binade x = (if x \<ge> 1 then bitlen \<lfloor>x\<rfloor> - 1 else - bitlen (\<lceil>1 / x\<rceil> - 1))"

definition fl :: "real \<Rightarrow> real" where
  "fl x =
     (if x = 0 then 0
      else (let e = binade \<bar>x\<bar>; ulp = 2 powi (e - 52)
            in of_int (roundEven (x / ulp)) * ulp))"

section \<open>Image timing (renderVideo, the tick's "Determine Image Timing" block)\<close>

record timing =
  imgIndex :: int
  currentImageStartTime :: real
  currentImageDuration :: real

text \<open>
  \<open>imageTiming hasTitleCard n duration sectionElapsed\<close> is the value of
  \<open>(imgIndex, currentImageStartTime, currentImageDuration)\<close> after the timing block of one tick,
  where \<open>hasTitleCard\<close> is the truthiness of \<open>section.titleCard\<close> and \<open>n\<close> is
  \<open>loadedImages.length\<close>. Every \<open>*\<close>, \<open>/\<close>, \<open>+\<close> and \<open>-\<close> on doubles is followed by \<open>fl\<close>.
  \<open>Math.min\<close>, \<open>Math.floor\<close> and the comparisons are exact on doubles, and so are the
  conversion of an index to a double and \<open>1 + contentIndex\<close>: a tick draws only when
  \<open>sectionElapsed < duration\<close>, where an index is an integer of at most the array length,
  far below \<open>2\<^sup>5\<^sup>3\<close>. For the same reason, and because \<open>n > 0\<close> after the skip of empty
  sections, no division by zero occurs on a tick.
\<close>

definition imageTiming :: "bool \<Rightarrow> nat \<Rightarrow> real \<Rightarrow> real \<Rightarrow> timing" where
  "imageTiming hasTitleCard n duration sectionElapsed =
     (if hasTitleCard then
        (let titleDuration = min 4 (fl (duration * 0.5)) in
         if sectionElapsed < titleDuration then
           \<lparr>imgIndex = 0, currentImageStartTime = 0, currentImageDuration = titleDuration\<rparr>
         else
           (let remainingTime = fl (duration - titleDuration) in
            if remainingTime > 0 \<and> n > 1 then
              (let contentImagesCount = n - 1;
                   contentElapsed = fl (sectionElapsed - titleDuration);
                   timePerImage = fl (remainingTime / real contentImagesCount);
                   contentIndex = \<lfloor>fl (contentElapsed / timePerImage)\<rfloor>
               in \<lparr>imgIndex = 1 + contentIndex,
                   currentImageStartTime =
                     fl (titleDuration + fl (of_int contentIndex * timePerImage)),
                   currentImageDuration = timePerImage\<rparr>)
            else
              \<lparr>imgIndex = 0, currentImageStartTime = 0, currentImageDuration = duration\<rparr>))
      else
        (let timePerImage = fl (duration / real n);
             i = \<lfloor>fl (sectionElapsed / timePerImage)\<rfloor>
         in \<lparr>imgIndex = i,
             currentImageStartTime = fl (of_int i * timePerImage),
             currentImageDuration = timePerImage\<rparr>))"

section \<open>Frame composition (renderVideo, the tick's drawing block)\<close>

text \<open>
  An \<open>HTMLImageElement\<close> as far as the renderer reads it. \<open>emptyImage\<close> is \<open>new Image()\<close>,
  the value the preload promise resolves to from \<open>onerror\<close>.
\<close>

record image =
  src :: string
  width :: nat
  height :: nat

definition emptyImage :: image where
  "emptyImage = \<lparr>src = [], width = 0, height = 0\<rparr>"

text \<open>
  The preload promise of one source: the argument is the outcome of loading, \<open>Some img\<close> when
  \<open>onload\<close> fires and \<open>None\<close> when \<open>onerror\<close> fires. Both handlers resolve.
\<close>

definition preloadImage :: "image option \<Rightarrow> image" where
  "preloadImage outcome = (case outcome of Some img \<Rightarrow> img | None \<Rightarrow> emptyImage)"

definition zoomFactors :: "AnimationSpeed \<Rightarrow> real" where
  "zoomFactors s = (case s of Slow \<Rightarrow> 1.05 | Medium \<Rightarrow> 1.15 | Fast \<Rightarrow> 1.25)"

definition fadeDurationOf :: "Transition \<Rightarrow> real" where
  "fadeDurationOf transitionType = (if transitionType = Fade then 0.5 else 0)"

text \<open>Reading a JavaScript array: \<open>undefined\<close> (here \<open>None\<close>) outside \<open>0 .. length - 1\<close>.\<close>

definition arrayGet :: "'a list \<Rightarrow> int \<Rightarrow> 'a option" where
  "arrayGet xs i = (if 0 \<le> i \<and> i < int (length xs) then Some (xs ! nat i) else None)"

text \<open>One call \<open>drawImage(img, progress, alpha)\<close> of the tick.\<close>

record drawCall =
  callImg :: "image option"
  callProgress :: real
  callAlpha :: real

text \<open>
  The calls of \<open>drawImage\<close> that one tick makes, in order, given the timing computed before.
\<close>

definition frameCalls :: "Transition \<Rightarrow> image list \<Rightarrow> timing \<Rightarrow> real \<Rightarrow> drawCall list" where
  "frameCalls transitionType loadedImages tm sectionElapsed =
     (let fadeDuration = fadeDurationOf transitionType;
          currentImg = arrayGet loadedImages (min (imgIndex tm) (int (length loadedImages) - 1));
          imgProgress = min 1 (max 0 ((sectionElapsed - currentImageStartTime tm)
                                        / currentImageDuration tm))
      in if transitionType = Fade \<and> imgIndex tm < int (length loadedImages) - 1 then
           (let timeRemaining =
                  currentImageDuration tm - (sectionElapsed - currentImageStartTime tm)
            in if timeRemaining < fadeDuration then
                 [\<lparr>callImg = currentImg, callProgress = imgProgress, callAlpha = 1\<rparr>,
                  \<lparr>callImg = arrayGet loadedImages (imgIndex tm + 1), callProgress = 0,
                   callAlpha = 1 - timeRemaining / fadeDuration\<rparr>]
               else
                 [\<lparr>callImg = currentImg, callProgress = imgProgress, callAlpha = 1\<rparr>])
         else
           [\<lparr>callImg = currentImg, callProgress = imgProgress, callAlpha = 1\<rparr>])"

definition currentScale :: "real \<Rightarrow> real \<Rightarrow> real" where
  "currentScale maxZoom progress = 1.0 + (maxZoom - 1.0) * progress"

text \<open>One \<open>ctx.drawImage(img, x, y, scaledW, scaledH)\<close> under \<open>ctx.globalAlpha = alpha\<close>.\<close>

record drawOp =
  opImg :: image
  opX :: real
  opY :: real
  opW :: real
  opH :: real
  opAlpha :: real

text \<open>
  The helper \<open>drawImage\<close>: what it paints on a canvas of the given size. It returns at once,
  painting nothing, for a missing image and for an image of width 0.
\<close>

definition drawImage :: "real \<Rightarrow> real \<Rightarrow> real \<Rightarrow> drawCall \<Rightarrow> drawOp list" where
  "drawImage canvasW canvasH maxZoom c =
     (case callImg c of
        None \<Rightarrow> []
      | Some img \<Rightarrow>
          if width img = 0 then []
          else
            (let ratioW = canvasW / real (width img);
                 ratioH = canvasH / real (height img);
                 baseScale = max ratioW ratioH;
                 finalScale = baseScale * currentScale maxZoom (callProgress c);
                 scaledW = real (width img) * finalScale;
                 scaledH = real (height img) * finalScale;
                 x = (canvasW - scaledW) / 2;
                 y = (canvasH - scaledH) / 2
             in [\<lparr>opImg = img, opX = x, opY = y, opW = scaledW, opH = scaledH,
                  opAlpha = callAlpha c\<rparr>]))"

text \<open>
  One tick that draws: the canvas is cleared to black, then the calls are made in order.
  A frame is the list of what was painted over the black canvas; \<open>[]\<close> is a solid black frame.
\<close>

definition renderFrame ::
  "real \<Rightarrow> real \<Rightarrow> real \<Rightarrow> Transition \<Rightarrow> bool \<Rightarrow> image list \<Rightarrow> real \<Rightarrow> real \<Rightarrow> drawOp list" where
  "renderFrame canvasW canvasH maxZoom transitionType hasTitleCard loadedImages duration
       sectionElapsed =
     concat (map (drawImage canvasW canvasH maxZoom)
       (frameCalls transitionType loadedImages
          (imageTiming hasTitleCard (length loadedImages) duration sectionElapsed)
          sectionElapsed))"

section \<open>Sections and the whole render (renderVideo)\<close>

text \<open>
  The browser services that \<open>renderVideo\<close> calls are parameters of the model:
  \<^item> \<open>canvasContext\<close>: whether \<open>canvas.getContext('2d')\<close> returns a context;
  \<^item> \<open>decodeAudioData src\<close>: fetching and decoding the audio at \<open>src\<close>, \<open>Some d\<close> for a
    buffer of duration \<open>d\<close> and \<open>None\<close> when the fetch or the decode throws;
  \<^item> \<open>loadImage src\<close>: loading the image at \<open>src\<close>, \<open>None\<close> when \<open>onerror\<close> fires.
  The audio clock \<open>audioCtx.currentTime\<close> is a list of readings, consumed one per read:
  one for \<open>startTime\<close> of a section that plays and one per timer tick. A loop that has not
  seen its end within the given readings yields \<open>None\<close>.
\<close>

record browser =
  canvasContext :: bool
  decodeAudioData :: "string \<Rightarrow> real option"
  loadImage :: "string \<Rightarrow> image option"

text \<open>What the render does, in order: the trace of its effects.\<close>

datatype event =
    Progress string
  | Warn string
  | Decode string
  | BgStart real bool
  | BgStop
  | RecorderStart
  | RecorderStop
  | VoiceStart real
  | VoiceStop
  | Frame "drawOp list"

datatype error = CanvasContextError

fun isBgEvent :: "event \<Rightarrow> bool" where
  "isBgEvent (BgStart g l) = True"
| "isBgEvent BgStop = True"
| "isBgEvent e = False"

fun isFrame :: "event \<Rightarrow> bool" where
  "isFrame (Frame f) = True"
| "isFrame e = False"

fun isVoiceEvent :: "event \<Rightarrow> bool" where
  "isVoiceEvent (VoiceStart d) = True"
| "isVoiceEvent VoiceStop = True"
| "isVoiceEvent e = False"

definition sectionName :: "GeneratedSection \<Rightarrow> string" where
  "sectionName section = (if truthy (title section) then the (title section) else ''Intro'')"

text \<open>
  "Decode Voice Audio": the events of the attempt and the resulting \<open>voiceBuffer\<close>
  (its duration), \<open>None\<close> for \<open>null\<close>. The \<open>catch\<close> logs a warning and leaves \<open>null\<close>.
\<close>

definition decodeVoice :: "browser \<Rightarrow> GeneratedSection \<Rightarrow> event list \<times> real option" where
  "decodeVoice env section =
     (if truthy (generatedAudio section) then
        (case decodeAudioData env (the (generatedAudio section)) of
           Some d \<Rightarrow> ([Decode (the (generatedAudio section))], Some d)
         | None \<Rightarrow>
             ([Decode (the (generatedAudio section)),
               Warn (''Audio decode failed for section '' @ sectionName section)], None))
      else ([], None))"

definition sectionDuration :: "real option \<Rightarrow> real" where
  "sectionDuration voiceBuffer = (case voiceBuffer of Some d \<Rightarrow> d | None \<Rightarrow> 5)"

definition validSrcs :: "GeneratedSection \<Rightarrow> string list" where
  "validSrcs section =
     filter (\<lambda>s. s \<noteq> [])
       ((if truthy (titleCard section) then [the (titleCard section)] else [])
          @ generatedImages section)"

text \<open>
  The timer loop of one section. Each tick reads the clock; at or after \<open>duration\<close> it clears
  the timer, stops the voice source if there is one, and resolves; before, it draws a frame.
\<close>

fun animationLoop ::
  "(real \<Rightarrow> drawOp list) \<Rightarrow> bool \<Rightarrow> real \<Rightarrow> real \<Rightarrow> real list
     \<Rightarrow> (event list \<times> real list) option" where
  "animationLoop frame hasVoice duration startTime [] = None"
| "animationLoop frame hasVoice duration startTime (currentTime # clock) =
     (let sectionElapsed = currentTime - startTime in
      if sectionElapsed \<ge> duration then
        Some (if hasVoice then [VoiceStop] else [], clock)
      else
        (case animationLoop frame hasVoice duration startTime clock of
           None \<Rightarrow> None
         | Some (evs, clock') \<Rightarrow> Some (Frame (frame sectionElapsed) # evs, clock')))"

text \<open>
  The body of the section loop from "Prepare Images" on, given the decoded \<open>voiceBuffer\<close>:
  the skip of a section without valid sources, the preload, the start of the voice, the
  timer loop.
\<close>

definition sectionBody ::
  "browser \<Rightarrow> real \<Rightarrow> real \<Rightarrow> real \<Rightarrow> Transition \<Rightarrow> GeneratedSection \<Rightarrow> real option
     \<Rightarrow> real list \<Rightarrow> (event list \<times> real list) option" where
  "sectionBody env canvasW canvasH maxZoom transitionType section voiceBuffer clock =
     (let duration = sectionDuration voiceBuffer;
          srcs = validSrcs section
      in if srcs = [] then Some ([], clock)
         else
           (let loadedImages = map (\<lambda>src. preloadImage (loadImage env src)) srcs;
                voiceEvents = (case voiceBuffer of Some d \<Rightarrow> [VoiceStart d] | None \<Rightarrow> [])
            in case clock of
                 [] \<Rightarrow> None
               | startTime # clock' \<Rightarrow>
                   (case animationLoop
                           (renderFrame canvasW canvasH maxZoom transitionType
                              (truthy (titleCard section)) loadedImages duration)
                           (voiceBuffer \<noteq> None) duration startTime clock' of
                      None \<Rightarrow> None
                    | Some (evs, clock'') \<Rightarrow> Some (voiceEvents @ evs, clock''))))"

definition renderSection ::
  "browser \<Rightarrow> real \<Rightarrow> real \<Rightarrow> real \<Rightarrow> Transition \<Rightarrow> GeneratedSection \<Rightarrow> real list
     \<Rightarrow> (event list \<times> real list) option" where
  "renderSection env canvasW canvasH maxZoom transitionType section clock =
     (case decodeVoice env section of
        (decodeEvents, voiceBuffer) \<Rightarrow>
          (case sectionBody env canvasW canvasH maxZoom transitionType section voiceBuffer
                  clock of
             None \<Rightarrow> None
           | Some (evs, clock') \<Rightarrow>
               Some (Progress (''Rendering: '' @ sectionName section) # decodeEvents @ evs,
                     clock')))"

fun renderSections ::
  "browser \<Rightarrow> real \<Rightarrow> real \<Rightarrow> real \<Rightarrow> Transition \<Rightarrow> GeneratedSection list \<Rightarrow> real list
     \<Rightarrow> (event list \<times> real list) option" where
  "renderSections env canvasW canvasH maxZoom transitionType [] clock = Some ([], clock)"
| "renderSections env canvasW canvasH maxZoom transitionType (section # sections) clock =
     (case renderSection env canvasW canvasH maxZoom transitionType section clock of
        None \<Rightarrow> None
      | Some (evs, clock') \<Rightarrow>
          (case renderSections env canvasW canvasH maxZoom transitionType sections clock' of
             None \<Rightarrow> None
           | Some (evs', clock'') \<Rightarrow> Some (evs @ evs', clock'')))"

text \<open>
  "Background Music Track": the events of the setup and whether \<open>bgSource\<close> is set.
  The condition is \<open>data.backgroundMusic && data.config?.bgMusicVolume && bgMusicVolume > 0\<close>.
\<close>

definition bgWanted :: "ProjectData \<Rightarrow> bool" where
  "bgWanted data =
     (truthy (backgroundMusic data)
      \<and> (case config data of
           None \<Rightarrow> False
         | Some c \<Rightarrow> bgMusicVolume c \<noteq> 0 \<and> bgMusicVolume c > 0))"

definition backgroundTrack :: "browser \<Rightarrow> ProjectData \<Rightarrow> event list \<times> bool" where
  "backgroundTrack env data =
     (if bgWanted data then
        (case decodeAudioData env (the (backgroundMusic data)) of
           Some d \<Rightarrow>
             ([Decode (the (backgroundMusic data)),
               BgStart (bgMusicVolume (the (config data)) * 0.5) True], True)
         | None \<Rightarrow>
             ([Decode (the (backgroundMusic data)),
               Warn ''Failed to load background music''], False))
      else ([], False))"

definition canvasSize :: "ProjectData \<Rightarrow> real \<times> real" where
  "canvasSize data =
     (if map_option aspectRatio (config data) = Some ''9:16'' then (720, 1280)
      else (1280, 720))"

definition renderVideo :: "browser \<Rightarrow> ProjectData \<Rightarrow> real list \<Rightarrow> (error + event list) option" where
  "renderVideo env data clock =
     (case canvasSize data of
        (canvasW, canvasH) \<Rightarrow>
          if \<not> canvasContext env then Some (Inl CanvasContextError)
          else
            (case backgroundTrack env data of
               (bgEvents, bgSource) \<Rightarrow>
                 (let animationSpeed =
                        (case config data of Some c \<Rightarrow> animationSpeed c | None \<Rightarrow> Medium);
                      transitionType =
                        (case config data of Some c \<Rightarrow> transition c | None \<Rightarrow> NoTransition);
                      maxZoom = zoomFactors animationSpeed;
                      sections = intro data # parts data
                  in case renderSections env canvasW canvasH maxZoom transitionType sections
                            clock of
                       None \<Rightarrow> None
                     | Some (evs, clock') \<Rightarrow>
                         Some (Inr (bgEvents @ [RecorderStart] @ evs
                                    @ (if bgSource then [BgStop] else [])
                                    @ [RecorderStop])))))"

section \<open>Title cards (generateTitleCard)\<close>

text \<open>
  The canvas that \<open>generateTitleCard\<close> paints, as the record of what was set and drawn:
  its size, the colour of the \<open>fillRect\<close> over the whole canvas, the text style, and the
  \<open>fillText\<close> calls in order. The promise resolves with \<open>''\<close> (\<open>EmptyString\<close>) when no 2D
  context exists, otherwise with the PNG data URL of the canvas (\<open>PngDataUrl\<close>).
  \<open>ctx.measureText\<close> is a parameter: the width of a text under a font.
\<close>

record textDraw =
  textContent :: string
  textX :: real
  textY :: real

record titleCanvas =
  canvasWidth :: nat
  canvasHeight :: nat
  background :: string
  textFillStyle :: string
  font :: string
  textAlign :: string
  textBaseline :: string
  texts :: "textDraw list"

datatype dataUrl = EmptyString | PngDataUrl titleCanvas

text \<open>\<open>text.split(' ')\<close>: the pieces between single spaces; never an empty array.\<close>

fun splitSpaces :: "string \<Rightarrow> string list" where
  "splitSpaces [] = [[]]"
| "splitSpaces (c # cs) =
     (if c = CHR '' '' then [] # splitSpaces cs
      else (case splitSpaces cs of
              [] \<Rightarrow> [[c]]
            | w # ws \<Rightarrow> (c # w) # ws))"

text \<open>
  The wrapping loop \<open>for (n = 0; n < words.length; n++)\<close> followed by the last
  \<open>lines.push(line)\<close>; the arguments are the index \<open>n\<close>, the words from \<open>n\<close> on, and the
  current \<open>line\<close> and \<open>lines\<close>.
\<close>

fun wrapLines ::
  "(string \<Rightarrow> real) \<Rightarrow> real \<Rightarrow> nat \<Rightarrow> string list \<Rightarrow> string \<Rightarrow> string list \<Rightarrow> string list" where
  "wrapLines measureWidth maxWidth n [] line lines = lines @ [line]"
| "wrapLines measureWidth maxWidth n (word # words) line lines =
     (let testLine = line @ word @ '' '';
          testWidth = measureWidth testLine
      in if testWidth > maxWidth \<and> n > 0 then
           wrapLines measureWidth maxWidth (n + 1) words (word @ '' '') (lines @ [line])
         else
           wrapLines measureWidth maxWidth (n + 1) words testLine lines)"

text \<open>\<open>lines.forEach\<close>: one \<open>fillText(l, canvas.width / 2, startY)\<close> per line.\<close>

fun fillLines :: "real \<Rightarrow> real \<Rightarrow> real \<Rightarrow> string list \<Rightarrow> textDraw list" where
  "fillLines x startY lineHeight [] = []"
| "fillLines x startY lineHeight (l # ls) =
     \<lparr>textContent = l, textX = x, textY = startY\<rparr>
       # fillLines x (startY + lineHeight) lineHeight ls"

text \<open>
  \<open>generateTitleCard hasContext measureText text aspectRatio\<close>; a missing second argument
  (\<open>None\<close>) takes the default \<open>'16:9'\<close>.
\<close>

definition generateTitleCard ::
  "bool \<Rightarrow> (string \<Rightarrow> string \<Rightarrow> real) \<Rightarrow> string \<Rightarrow> string option \<Rightarrow> dataUrl" where
  "generateTitleCard hasContext measureText text aspectRatioArg =
     (let aspectRatio = (case aspectRatioArg of None \<Rightarrow> ''16:9'' | Some a \<Rightarrow> a);
          cw = (if aspectRatio = ''9:16'' then 1080 else 1920);
          ch = (if aspectRatio = ''9:16'' then 1920 else 1080)
      in if \<not> hasContext then EmptyString
         else
           (let fontSize = (if aspectRatio = ''9:16'' then 70 else (80::nat));
                fontName = ''bold '' @ (if aspectRatio = ''9:16'' then ''70'' else ''80'')
                             @ ''px Arial, sans-serif'';
                maxWidth = real cw - (if aspectRatio = ''9:16'' then 100 else 200);
                words = splitSpaces text;
                lines = wrapLines (measureText fontName) maxWidth 0 words [] [];
                lineHeight = real fontSize * 1.3;
                totalHeight = real (length lines) * lineHeight;
                startY = (real ch - totalHeight) / 2 + lineHeight / 2
            in PngDataUrl
                 \<lparr>canvasWidth = cw, canvasHeight = ch, background = ''#000000'',
                  textFillStyle = ''#FFFFFF'', font = fontName, textAlign = ''center'',
                  textBaseline = ''middle'',
                  texts = fillLines (real cw / 2) startY lineHeight lines\<rparr>))"

section \<open>Properties of the double arithmetic\<close>

lemma roundEven_error: "\<bar>of_int (roundEven y) - y\<bar> \<le> 1 / 2"
proof -
  have "of_int \<lfloor>y\<rfloor> \<le> y" "y < of_int \<lfloor>y\<rfloor> + 1" by linarith+
  then show ?thesis
    by (auto simp add: roundEven_def Let_def abs_le_iff)
qed

lemma binade_bounds:
  assumes "0 < x"
  shows "2 powi binade x \<le> x \<and> x < 2 powi (binade x + 1)"
proof (cases "1 \<le> x")
  case True
  define f where "f = \<lfloor>x\<rfloor>"
  have f: "1 \<le> f" using True by (simp add: f_def le_floor_iff)
  then have fpos: "0 < f" by simp
  have bl: "1 \<le> bitlen f" using fpos by (simp add: bitlen_alt_def)
  from bitlen_bounds [OF fpos]
  have lo: "(2::int) ^ nat (bitlen f - 1) \<le> f" and hi: "f < 2 ^ nat (bitlen f)" by simp_all
  have b: "binade x = bitlen f - 1" using True by (simp add: binade_def f_def)
  have "(2::real) powi (bitlen f - 1) = 2 ^ nat (bitlen f - 1)"
    using bl by (simp add: power_int_nonneg_exp)
  also have "\<dots> = of_int (2 ^ nat (bitlen f - 1))" by simp
  also have "\<dots> \<le> of_int f" using lo by (simp only: of_int_le_iff)
  also have "\<dots> \<le> x" by (simp add: f_def)
  finally have 1: "2 powi binade x \<le> x" by (simp add: b)
  have "f + 1 \<le> 2 ^ nat (bitlen f)" using hi by simp
  then have "(of_int (f + 1) :: real) \<le> of_int (2 ^ nat (bitlen f))"
    by (simp only: of_int_le_iff)
  moreover have "x < of_int (f + 1)" by (simp add: f_def)
  ultimately have "x < 2 ^ nat (bitlen f)" by simp
  also have "(2::real) ^ nat (bitlen f) = 2 powi (bitlen f)"
    using bl by (simp add: power_int_nonneg_exp)
  finally have 2: "x < 2 powi (binade x + 1)" by (simp add: b)
  from 1 2 show ?thesis by simp
next
  case False
  then have x1: "x < 1" by simp
  define y where "y = 1 / x"
  have y1: "1 < y" using assms x1 by (simp add: y_def)
  define m where "m = \<lceil>y\<rceil> - 1"
  have m1: "1 \<le> m" using y1 by (simp add: m_def less_ceiling_iff)
  then have mpos: "0 < m" by simp
  have my: "of_int m < y" by (simp add: m_def) linarith
  have ym: "y \<le> of_int m + 1" by (simp add: m_def)
  define k where "k = bitlen m"
  have k1: "1 \<le> k" using mpos by (simp add: k_def bitlen_alt_def)
  from bitlen_bounds [OF mpos]
  have lo: "(2::int) ^ nat (k - 1) \<le> m" and hi: "m < 2 ^ nat k" by (simp_all add: k_def)
  have b: "binade x = - k" using False by (simp add: binade_def k_def m_def y_def)
  have xy: "1 / y = x" using assms by (simp add: y_def)
  have "m + 1 \<le> 2 ^ nat k" using hi by simp
  then have "(of_int (m + 1) :: real) \<le> of_int (2 ^ nat k)" by (simp only: of_int_le_iff)
  then have "y \<le> 2 ^ nat k" using ym by simp
  then have "1 / (2::real) ^ nat k \<le> 1 / y"
    using y1 by (intro divide_left_mono) auto
  then have i1: "1 / (2::real) ^ nat k \<le> x" by (simp only: xy)
  have "(2::real) powi (- k) = 1 / 2 ^ nat k"
    using k1 by (simp add: power_int_minus_divide power_int_nonneg_exp)
  then have 1: "2 powi binade x \<le> x" using i1 by (simp only: b)
  have "(of_int (2 ^ nat (k - 1)) :: real) \<le> of_int m" using lo by (simp only: of_int_le_iff)
  then have "(2::real) ^ nat (k - 1) \<le> of_int m" by simp
  then have "(2::real) ^ nat (k - 1) < y" using my by linarith
  then have "1 / y < 1 / (2::real) ^ nat (k - 1)"
    using y1 by (intro divide_strict_left_mono) auto
  then have i2: "x < 1 / (2::real) ^ nat (k - 1)" by (simp only: xy)
  have "(2::real) powi (- k + 1) = 1 / 2 ^ nat (k - 1)"
  proof -
    have "- k + 1 = - (k - 1)" by simp
    then have "(2::real) powi (- k + 1) = 2 powi (- (k - 1))" by simp
    also have "\<dots> = 1 / 2 powi (k - 1)" by (rule power_int_minus_divide)
    also have "\<dots> = 1 / 2 ^ nat (k - 1)" using k1 by (simp add: power_int_nonneg_exp)
    finally show ?thesis .
  qed
  then have 2: "x < 2 powi (binade x + 1)" using i2 by (simp only: b)
  from 1 2 show ?thesis by simp
qed



lemma fl_error: "\<bar>fl x - x\<bar> \<le> \<bar>x\<bar> / 2 ^ 53"
proof (cases "x = 0")
  case True
  then show ?thesis by (simp add: fl_def)
next
  case False
  define e where "e = binade \<bar>x\<bar>"
  define ulp :: real where "ulp = 2 powi (e - 52)"
  have ulp: "0 < ulp" by (simp add: ulp_def)
  have lo: "2 powi e \<le> \<bar>x\<bar>"
    using binade_bounds [of "\<bar>x\<bar>"] False by (simp add: e_def)
  have f: "fl x = of_int (roundEven (x / ulp)) * ulp"
    using False by (simp add: fl_def Let_def e_def ulp_def)
  have "fl x - x = (of_int (roundEven (x / ulp)) - x / ulp) * ulp"
    using ulp by (simp add: f field_simps)
  then have "\<bar>fl x - x\<bar> = \<bar>of_int (roundEven (x / ulp)) - x / ulp\<bar> * ulp"
    using ulp by (simp add: abs_mult)
  also have "\<dots> \<le> 1 / 2 * ulp"
    using roundEven_error [of "x / ulp"] ulp by (intro mult_right_mono) auto
  also have "1 / 2 * ulp = 2 powi e / 2 ^ 53"
  proof -
    have "(2::real) powi (e - 52) = 2 powi e * 2 powi (- 52)"
      using power_int_add [of "2::real" e "- 52"] by simp
    also have "(2::real) powi (- 52) = 1 / 2 ^ 52"
      by (simp add: power_int_minus_divide)
    finally show ?thesis by (simp add: ulp_def)
  qed
  also have "\<dots> \<le> \<bar>x\<bar> / 2 ^ 53"
    using lo by (intro divide_right_mono) auto
  finally show ?thesis .
qed

lemma fl_ge: "0 \<le> x \<Longrightarrow> x * (1 - 1 / 2 ^ 53) \<le> fl x"
proof -
  assume x: "0 \<le> x"
  have "\<bar>fl x - x\<bar> \<le> x / 2 ^ 53" using fl_error [of x] x by simp
  then have "x - x / 2 ^ 53 \<le> fl x" by linarith
  moreover have "x * (1 - 1 / 2 ^ 53) = x - x / 2 ^ 53" by (simp add: right_diff_distrib)
  ultimately show ?thesis by (simp only:)
qed

lemma fl_le: "0 \<le> x \<Longrightarrow> fl x \<le> x * (1 + 1 / 2 ^ 53)"
proof -
  assume x: "0 \<le> x"
  have "\<bar>fl x - x\<bar> \<le> x / 2 ^ 53" using fl_error [of x] x by simp
  then have "fl x \<le> x + x / 2 ^ 53" by linarith
  moreover have "x * (1 + 1 / 2 ^ 53) = x + x / 2 ^ 53" by (simp add: distrib_left)
  ultimately show ?thesis by (simp only:)
qed

lemma fl_nonneg: "0 \<le> x \<Longrightarrow> 0 \<le> fl x"
proof -
  assume x: "0 \<le> x"
  have "0 \<le> x * (1 - 1 / 2 ^ 53)" using x by (intro mult_nonneg_nonneg) auto
  with fl_ge [OF x] show ?thesis by linarith
qed

lemma fl_pos: "0 < x \<Longrightarrow> 0 < fl x"
proof -
  assume x: "0 < x"
  have "0 < x * (1 - 1 / 2 ^ 53)" using x by (intro mult_pos_pos) auto
  with fl_ge [of x] x show ?thesis by linarith
qed



lemma fl_nonpos: "x \<le> 0 \<Longrightarrow> fl x \<le> 0"
proof -
  assume x: "x \<le> 0"
  have "\<bar>fl x - x\<bar> \<le> - x / 2 ^ 53" using fl_error [of x] x by simp
  then have "fl x \<le> x - x / 2 ^ 53" by linarith
  moreover have "x - x / 2 ^ 53 = x * (1 - 1 / 2 ^ 53)" by (simp add: right_diff_distrib)
  moreover have "x * (1 - 1 / 2 ^ 53) \<le> 0" using x by (intro mult_nonpos_nonneg) auto
  ultimately show ?thesis by linarith
qed

lemma fl_pos_iff: "0 < fl x \<longleftrightarrow> 0 < x"
  using fl_pos [of x] fl_nonpos [of x] by (cases "0 < x") auto








section \<open>Properties of the image timing\<close>

lemma imageTiming_no_title:
  "imageTiming False n D t =
     \<lparr>imgIndex = \<lfloor>fl (t / fl (D / real n))\<rfloor>,
      currentImageStartTime = fl (of_int \<lfloor>fl (t / fl (D / real n))\<rfloor> * fl (D / real n)),
      currentImageDuration = fl (D / real n)\<rparr>"
  by (simp add: imageTiming_def Let_def)










lemma imageTiming_title:
  assumes "T = min 4 (fl (D * 0.5))"
  shows "imageTiming True n D t =
     (if t < T then
        \<lparr>imgIndex = 0, currentImageStartTime = 0, currentImageDuration = T\<rparr>
      else if fl (D - T) > 0 \<and> n > 1 then
        \<lparr>imgIndex = 1 + \<lfloor>fl (fl (t - T) / fl (fl (D - T) / real (n - 1)))\<rfloor>,
         currentImageStartTime =
           fl (T + fl (of_int \<lfloor>fl (fl (t - T) / fl (fl (D - T) / real (n - 1)))\<rfloor>
                        * fl (fl (D - T) / real (n - 1)))),
         currentImageDuration = fl (fl (D - T) / real (n - 1))\<rparr>
      else
        \<lparr>imgIndex = 0, currentImageStartTime = 0, currentImageDuration = D\<rparr>)"
  unfolding imageTiming_def Let_def assms by (simp only: if_True)

lemma title_phase:
  assumes T: "T = min 4 (fl (D * 0.5))" and "t < T"
  shows "imageTiming True n D t =
     \<lparr>imgIndex = 0, currentImageStartTime = 0, currentImageDuration = T\<rparr>"
  using assms(2) by (simp add: imageTiming_title [OF T])


lemma title_content_phase:
  assumes T: "T = min 4 (fl (D * 0.5))" and n: "1 < n" and rem: "0 < D - T" and t: "T \<le> t"
  shows "imageTiming True n D t =
        \<lparr>imgIndex = 1 + \<lfloor>fl (fl (t - T) / fl (fl (D - T) / real (n - 1)))\<rfloor>,
         currentImageStartTime =
           fl (T + fl (of_int \<lfloor>fl (fl (t - T) / fl (fl (D - T) / real (n - 1)))\<rfloor>
                        * fl (fl (D - T) / real (n - 1)))),
         currentImageDuration = fl (fl (D - T) / real (n - 1))\<rparr>"
proof -
  have 1: "\<not> t < T" using t by simp
  have 2: "fl (D - T) > 0 \<and> n > 1" using rem n fl_pos_iff [of "D - T"] by blast
  show ?thesis
    by (simp only: imageTiming_title [OF T] if_not_P [OF 1] if_P [OF 2])
qed

lemma title_only_after:
  assumes T: "T = min 4 (fl (D * 0.5))" and no: "\<not> (1 < n \<and> 0 < D - T)" and t: "T \<le> t"
  shows "imageTiming True n D t =
     \<lparr>imgIndex = 0, currentImageStartTime = 0, currentImageDuration = D\<rparr>"
proof -
  have 1: "\<not> t < T" using t by simp
  have 2: "\<not> (fl (D - T) > 0 \<and> n > 1)" using no fl_pos_iff [of "D - T"] by blast
  show ?thesis
    by (simp only: imageTiming_title [OF T] if_not_P [OF 1] if_not_P [OF 2])
qed



lemma title_duration_below:
  assumes T: "T = min 4 (fl (D * 0.5))" and D: "0 < D"
  shows "T < D"
proof -
  have "fl (D * 0.5) \<le> D * 0.5 * (1 + 1 / 2 ^ 53)" using D by (intro fl_le) simp
  also have "\<dots> < D" using D by simp
  finally have "fl (D * 0.5) < D" .
  then show ?thesis by (simp add: T)
qed







section \<open>Properties of the frame composition\<close>

lemma currentScale_bounds:
  assumes "1 \<le> mz" "0 \<le> p" "p \<le> 1"
  shows "1 \<le> currentScale mz p \<and> currentScale mz p \<le> mz"
proof -
  have "0 \<le> (mz - 1) * p" using assms by simp
  moreover have "(mz - 1) * p \<le> (mz - 1) * 1"
    using assms by (intro mult_left_mono) auto
  ultimately show ?thesis by (simp add: currentScale_def)
qed

lemma currentScale_mono:
  assumes "1 \<le> mz" "p \<le> q"
  shows "currentScale mz p \<le> currentScale mz q"
  using assms by (simp add: currentScale_def mult_left_mono)

lemma zoomFactors_ge_1: "1 \<le> zoomFactors s"
  by (cases s) (simp_all add: zoomFactors_def)

lemma frameCalls_progress:
  "c \<in> set (frameCalls tr imgs tm t) \<Longrightarrow> 0 \<le> callProgress c \<and> callProgress c \<le> 1"
  by (auto simp add: frameCalls_def Let_def split: if_splits)

lemma frameCalls_hd:
  "hd (frameCalls tr imgs tm t) =
     \<lparr>callImg = arrayGet imgs (min (imgIndex tm) (int (length imgs) - 1)),
      callProgress = min 1 (max 0 ((t - currentImageStartTime tm) / currentImageDuration tm)),
      callAlpha = 1\<rparr>"
  by (simp add: frameCalls_def Let_def)

lemma drawImage_scale:
  "0 < width img \<Longrightarrow>
   drawImage W H mz \<lparr>callImg = Some img, callProgress = p, callAlpha = a\<rparr> =
     [\<lparr>opImg = img,
       opX = (W - real (width img) * (max (W / real (width img)) (H / real (height img)) * currentScale mz p)) / 2,
       opY = (H - real (height img) * (max (W / real (width img)) (H / real (height img)) * currentScale mz p)) / 2,
       opW = real (width img) * (max (W / real (width img)) (H / real (height img)) * currentScale mz p),
       opH = real (height img) * (max (W / real (width img)) (H / real (height img)) * currentScale mz p),
       opAlpha = a\<rparr>]"
  by (simp add: drawImage_def Let_def)

text \<open>
  Claim C3. The Ken-Burns scale of a draw is \<open>1 + (maxZoom - 1) * progress\<close>; the progress
  of every call of a tick is clamped to \<open>[0, 1]\<close>; for every progress in \<open>[0, 1]\<close> the scale
  lies in \<open>[1, maxZoom]\<close> and it is monotonically non-decreasing in progress; \<open>maxZoom\<close> is
  1.05, 1.15 and 1.25 for Slow, Medium and Fast, strictly increasing from Slow to Fast. The
  painted width is the image width times the cover-fit scale times this zoom scale.
\<close>

theorem C3_zoom_scale:
  "zoomFactors Slow = 1.05 \<and> zoomFactors Medium = 1.15 \<and> zoomFactors Fast = 1.25
   \<and> zoomFactors Slow < zoomFactors Medium \<and> zoomFactors Medium < zoomFactors Fast
   \<and> (\<forall>mz p. currentScale mz p = 1 + (mz - 1) * p)
   \<and> (\<forall>s p. 0 \<le> p \<and> p \<le> 1 \<longrightarrow>
         1 \<le> currentScale (zoomFactors s) p \<and> currentScale (zoomFactors s) p \<le> zoomFactors s)
   \<and> (\<forall>s p q. p \<le> q \<longrightarrow>
         currentScale (zoomFactors s) p \<le> currentScale (zoomFactors s) q)
   \<and> (\<forall>tr imgs tm t c. c \<in> set (frameCalls tr imgs tm t) \<longrightarrow>
         0 \<le> callProgress c \<and> callProgress c \<le> 1)
   \<and> (\<forall>tr imgs tm t.
         callProgress (hd (frameCalls tr imgs tm t)) =
           min 1 (max 0 ((t - currentImageStartTime tm) / currentImageDuration tm)))
   \<and> (\<forall>W H s img p a. 0 < width img \<longrightarrow>
         map opW (drawImage W H (zoomFactors s) \<lparr>callImg = Some img, callProgress = p, callAlpha = a\<rparr>) =
           [real (width img) * (max (W / real (width img)) (H / real (height img))
              * currentScale (zoomFactors s) p)])"
proof -
  have a: "zoomFactors Slow = 1.05 \<and> zoomFactors Medium = 1.15 \<and> zoomFactors Fast = 1.25
   \<and> zoomFactors Slow < zoomFactors Medium \<and> zoomFactors Medium < zoomFactors Fast"
    by (simp add: zoomFactors_def)
  have b: "\<forall>mz p. currentScale mz p = 1 + (mz - 1) * p"
    by (simp add: currentScale_def)
  have c: "\<forall>s p. 0 \<le> p \<and> p \<le> 1 \<longrightarrow>
         1 \<le> currentScale (zoomFactors s) p \<and> currentScale (zoomFactors s) p \<le> zoomFactors s"
    using currentScale_bounds [OF zoomFactors_ge_1] by blast
  have d: "\<forall>s p q. p \<le> q \<longrightarrow>
         currentScale (zoomFactors s) p \<le> currentScale (zoomFactors s) q"
    using currentScale_mono [OF zoomFactors_ge_1] by blast
  have e: "\<forall>tr imgs tm t c. c \<in> set (frameCalls tr imgs tm t) \<longrightarrow>
         0 \<le> callProgress c \<and> callProgress c \<le> 1"
    using frameCalls_progress by blast
  have f: "\<forall>tr imgs tm t.
         callProgress (hd (frameCalls tr imgs tm t)) =
           min 1 (max 0 ((t - currentImageStartTime tm) / currentImageDuration tm))"
    by (simp add: frameCalls_hd)
  have g: "\<forall>W H s img p a. 0 < width img \<longrightarrow>
         map opW (drawImage W H (zoomFactors s) \<lparr>callImg = Some img, callProgress = p, callAlpha = a\<rparr>) =
           [real (width img) * (max (W / real (width img)) (H / real (height img))
              * currentScale (zoomFactors s) p)]"
    by (simp add: drawImage_scale)
  show ?thesis by (intro conjI a [THEN conjunct1] a [THEN conjunct2, THEN conjunct1]
     a [THEN conjunct2, THEN conjunct2, THEN conjunct1]
     a [THEN conjunct2, THEN conjunct2, THEN conjunct2, THEN conjunct1]
     a [THEN conjunct2, THEN conjunct2, THEN conjunct2, THEN conjunct2] b c d e f g)
qed

theorem C3_zoom_scale_witness:
  "currentScale (zoomFactors Medium) 0 = 1
   \<and> currentScale (zoomFactors Medium) 1 = 1.15
   \<and> 1 \<le> currentScale (zoomFactors Fast) 0.5
   \<and> currentScale (zoomFactors Fast) 0.5 \<le> zoomFactors Fast
   \<and> currentScale (zoomFactors Slow) 0.25 \<le> currentScale (zoomFactors Slow) 0.75"
proof -
  note th = C3_zoom_scale
  note sc = th [THEN conjunct2, THEN conjunct2, THEN conjunct2, THEN conjunct2, THEN conjunct2,
      THEN conjunct1, rule_format]
  note bd = th [THEN conjunct2, THEN conjunct2, THEN conjunct2, THEN conjunct2, THEN conjunct2,
      THEN conjunct2, THEN conjunct1, rule_format]
  note mo = th [THEN conjunct2, THEN conjunct2, THEN conjunct2, THEN conjunct2, THEN conjunct2,
      THEN conjunct2, THEN conjunct2, THEN conjunct1, rule_format]
  have "currentScale (zoomFactors Medium) 0 = 1"
    by (simp add: sc)
  moreover have "currentScale (zoomFactors Medium) 1 = 1.15"
    using th [THEN conjunct2, THEN conjunct1] by (simp add: sc)
  moreover have "1 \<le> currentScale (zoomFactors Fast) 0.5
      \<and> currentScale (zoomFactors Fast) 0.5 \<le> zoomFactors Fast"
    by (rule bd) simp
  moreover have "currentScale (zoomFactors Slow) 0.25 \<le> currentScale (zoomFactors Slow) 0.75"
    by (rule mo) simp
  ultimately show ?thesis by (intro conjI) simp_all
qed

lemma imageTiming_index_nonneg:
  assumes n: "0 < n" and t0: "0 \<le> t" and tD: "t < D"
  shows "0 \<le> imgIndex (imageTiming h n D t)"
proof (cases h)
  case False
  have "0 < D / real n" using n t0 tD by simp
  then have "0 < fl (D / real n)" by (rule fl_pos)
  then have "0 \<le> t / fl (D / real n)" using t0 by simp
  then have "0 \<le> fl (t / fl (D / real n))" by (rule fl_nonneg)
  then show ?thesis using False by (simp add: imageTiming_no_title)
next
  case True
  define T where "T = min 4 (fl (D * 0.5))"
  have T: "T = min 4 (fl (D * 0.5))" by (rule T_def)
  show ?thesis
  proof (cases "t < T")
    case title: True
    from title_phase [OF T this] True show ?thesis by simp
  next
    case notitle: False
    then have tT: "T \<le> t" by simp
    show ?thesis
    proof (cases "1 < n \<and> 0 < D - T")
      case no: False
      from title_only_after [OF T no tT] True show ?thesis by simp
    next
      case yes: True
      then have n1: "1 < n" and rem: "0 < D - T" by simp_all
      have "0 \<le> fl (t - T)" using tT by (intro fl_nonneg) simp
      moreover have "0 < fl (fl (D - T) / real (n - 1))"
        using rem n1 by (intro fl_pos divide_pos_pos) simp_all
      ultimately have "0 \<le> fl (t - T) / fl (fl (D - T) / real (n - 1))" by simp
      then have "0 \<le> fl (fl (t - T) / fl (fl (D - T) / real (n - 1)))" by (rule fl_nonneg)
      then have "0 \<le> \<lfloor>fl (fl (t - T) / fl (fl (D - T) / real (n - 1)))\<rfloor>" by simp
      then show ?thesis
        using True by (simp add: title_content_phase [OF T n1 rem tT])
    qed
  qed
qed

lemma arrayGet_clamped:
  assumes "imgs \<noteq> []" "0 \<le> i"
  shows "0 \<le> min i (int (length imgs) - 1) \<and> min i (int (length imgs) - 1) < int (length imgs)
     \<and> arrayGet imgs (min i (int (length imgs) - 1)) = Some (imgs ! nat (min i (int (length imgs) - 1)))"
proof -
  have "0 < length imgs" using assms by simp
  then have "0 \<le> min i (int (length imgs) - 1) \<and> min i (int (length imgs) - 1) < int (length imgs)"
    using assms(2) by auto
  then show ?thesis by (simp add: arrayGet_def)
qed

text \<open>
  Claim C9. On every tick that draws (a monotone clock gives \<open>0 \<le> sectionElapsed\<close>, the end
  test gives \<open>sectionElapsed < duration\<close>, and the loaded list is not empty after the skip of
  empty sections), the current image is read at index \<open>min imgIndex (length - 1)\<close>, which lies
  in \<open>0 .. length - 1\<close>, so the read returns an element of the loaded list. The same holds
  for any computed index that is not negative, and a computed index that reaches or exceeds
  the image count reads the last image.
\<close>

theorem C9_current_image_in_bounds:
  "(\<forall>tr imgs h D t. imgs \<noteq> [] \<and> 0 \<le> t \<and> t < D \<longrightarrow>
      0 \<le> min (imgIndex (imageTiming h (length imgs) D t)) (int (length imgs) - 1)
      \<and> min (imgIndex (imageTiming h (length imgs) D t)) (int (length imgs) - 1) < int (length imgs)
      \<and> callImg (hd (frameCalls tr imgs (imageTiming h (length imgs) D t) t)) =
          Some (imgs ! nat (min (imgIndex (imageTiming h (length imgs) D t)) (int (length imgs) - 1))))
   \<and> (\<forall>tr imgs tm t. imgs \<noteq> [] \<and> 0 \<le> imgIndex tm \<longrightarrow>
      0 \<le> min (imgIndex tm) (int (length imgs) - 1)
      \<and> min (imgIndex tm) (int (length imgs) - 1) < int (length imgs)
      \<and> callImg (hd (frameCalls tr imgs tm t)) =
          Some (imgs ! nat (min (imgIndex tm) (int (length imgs) - 1))))
   \<and> (\<forall>tr imgs tm t. imgs \<noteq> [] \<and> int (length imgs) \<le> imgIndex tm \<longrightarrow>
      callImg (hd (frameCalls tr imgs tm t)) = Some (last imgs))"
proof -
  have gen: "\<forall>tr imgs tm t. imgs \<noteq> [] \<and> 0 \<le> imgIndex tm \<longrightarrow>
      0 \<le> min (imgIndex tm) (int (length imgs) - 1)
      \<and> min (imgIndex tm) (int (length imgs) - 1) < int (length imgs)
      \<and> callImg (hd (frameCalls tr imgs tm t)) =
          Some (imgs ! nat (min (imgIndex tm) (int (length imgs) - 1)))"
  proof (intro allI impI)
    fix tr :: Transition and imgs :: "image list" and tm :: timing and t :: real
    assume h: "imgs \<noteq> [] \<and> 0 \<le> imgIndex tm"
    from arrayGet_clamped [of imgs "imgIndex tm"] h
    show "0 \<le> min (imgIndex tm) (int (length imgs) - 1)
      \<and> min (imgIndex tm) (int (length imgs) - 1) < int (length imgs)
      \<and> callImg (hd (frameCalls tr imgs tm t)) =
          Some (imgs ! nat (min (imgIndex tm) (int (length imgs) - 1)))"
      by (simp add: frameCalls_hd)
  qed
  have tick: "\<forall>tr imgs h D t. imgs \<noteq> [] \<and> 0 \<le> t \<and> t < D \<longrightarrow>
      0 \<le> min (imgIndex (imageTiming h (length imgs) D t)) (int (length imgs) - 1)
      \<and> min (imgIndex (imageTiming h (length imgs) D t)) (int (length imgs) - 1) < int (length imgs)
      \<and> callImg (hd (frameCalls tr imgs (imageTiming h (length imgs) D t) t)) =
          Some (imgs ! nat (min (imgIndex (imageTiming h (length imgs) D t)) (int (length imgs) - 1)))"
  proof (intro allI impI)
    fix tr :: Transition and imgs :: "image list" and h :: bool and D t :: real
    assume a: "imgs \<noteq> [] \<and> 0 \<le> t \<and> t < D"
    then have "0 < length imgs" by simp
    from imageTiming_index_nonneg [OF this, of t D h] a
    have "imgs \<noteq> [] \<and> 0 \<le> imgIndex (imageTiming h (length imgs) D t)" by simp
    with gen show "0 \<le> min (imgIndex (imageTiming h (length imgs) D t)) (int (length imgs) - 1)
      \<and> min (imgIndex (imageTiming h (length imgs) D t)) (int (length imgs) - 1) < int (length imgs)
      \<and> callImg (hd (frameCalls tr imgs (imageTiming h (length imgs) D t) t)) =
          Some (imgs ! nat (min (imgIndex (imageTiming h (length imgs) D t)) (int (length imgs) - 1)))"
      by (rule_tac gen [rule_format])
  qed
  have over: "\<forall>tr imgs tm t. imgs \<noteq> [] \<and> int (length imgs) \<le> imgIndex tm \<longrightarrow>
      callImg (hd (frameCalls tr imgs tm t)) = Some (last imgs)"
  proof (intro allI impI)
    fix tr :: Transition and imgs :: "image list" and tm :: timing and t :: real
    assume h: "imgs \<noteq> [] \<and> int (length imgs) \<le> imgIndex tm"
    then have m: "min (imgIndex tm) (int (length imgs) - 1) = int (length imgs) - 1" by simp
    have "0 < length imgs" using h by simp
    then have "nat (int (length imgs) - 1) = length imgs - 1" by simp
    then show "callImg (hd (frameCalls tr imgs tm t)) = Some (last imgs)"
      using h by (simp add: frameCalls_hd m arrayGet_def last_conv_nth)
  qed
  show ?thesis by (intro conjI tick gen over)
qed

theorem C9_current_image_in_bounds_witness:
  "callImg (hd (frameCalls NoTransition
       [\<lparr>src = ''a'', width = 4, height = 3\<rparr>, \<lparr>src = ''b'', width = 4, height = 3\<rparr>]
       (imageTiming False 2 4 3) 3)) = Some \<lparr>src = ''b'', width = 4, height = 3\<rparr>
   \<and> callImg (hd (frameCalls NoTransition
       [\<lparr>src = ''a'', width = 4, height = 3\<rparr>, \<lparr>src = ''b'', width = 4, height = 3\<rparr>]
       \<lparr>imgIndex = 2, currentImageStartTime = 4, currentImageDuration = 2\<rparr> 4))
     = Some \<lparr>src = ''b'', width = 4, height = 3\<rparr>"
proof -
  have tm: "imageTiming False 2 4 3 =
      \<lparr>imgIndex = 1, currentImageStartTime = 2, currentImageDuration = 2\<rparr>"
    by code_simp
  have tm': "imageTiming False (Suc (Suc 0)) 4 3 =
      \<lparr>imgIndex = 1, currentImageStartTime = 2, currentImageDuration = 2\<rparr>"
    by code_simp
  have "callImg (hd (frameCalls NoTransition
       [\<lparr>src = ''a'', width = 4, height = 3\<rparr>, \<lparr>src = ''b'', width = 4, height = 3\<rparr>]
       (imageTiming False 2 4 3) 3)) = Some \<lparr>src = ''b'', width = 4, height = 3\<rparr>"
    using C9_current_image_in_bounds [THEN conjunct1, rule_format,
        where imgs = "[\<lparr>src = ''a'', width = 4, height = 3\<rparr>, \<lparr>src = ''b'', width = 4, height = 3\<rparr>]"
          and t = 3 and D = 4 and h = False and tr = NoTransition]
    by (simp add: tm tm')
  moreover have "callImg (hd (frameCalls NoTransition
       [\<lparr>src = ''a'', width = 4, height = 3\<rparr>, \<lparr>src = ''b'', width = 4, height = 3\<rparr>]
       \<lparr>imgIndex = 2, currentImageStartTime = 4, currentImageDuration = 2\<rparr> 4))
     = Some \<lparr>src = ''b'', width = 4, height = 3\<rparr>"
    using C9_current_image_in_bounds [THEN conjunct2, THEN conjunct2, rule_format,
        where imgs = "[\<lparr>src = ''a'', width = 4, height = 3\<rparr>, \<lparr>src = ''b'', width = 4, height = 3\<rparr>]"
          and tm = "\<lparr>imgIndex = 2, currentImageStartTime = 4, currentImageDuration = 2\<rparr>"
          and t = 4 and tr = NoTransition]
    by simp
  ultimately show ?thesis by (intro conjI)
qed

lemma frameCalls_fade:
  assumes "tr = Fade" "imgIndex tm < int (length imgs) - 1"
    "currentImageDuration tm - (t - currentImageStartTime tm) < 0.5"
  shows "frameCalls tr imgs tm t =
     [\<lparr>callImg = arrayGet imgs (min (imgIndex tm) (int (length imgs) - 1)),
       callProgress = min 1 (max 0 ((t - currentImageStartTime tm) / currentImageDuration tm)),
       callAlpha = 1\<rparr>,
      \<lparr>callImg = arrayGet imgs (imgIndex tm + 1), callProgress = 0,
       callAlpha = 1 - (currentImageDuration tm - (t - currentImageStartTime tm)) / 0.5\<rparr>]"
  using assms by (simp add: frameCalls_def fadeDurationOf_def Let_def)

lemma frameCalls_plain:
  assumes "\<not> (tr = Fade \<and> imgIndex tm < int (length imgs) - 1
    \<and> currentImageDuration tm - (t - currentImageStartTime tm) < 0.5)"
  shows "frameCalls tr imgs tm t =
     [\<lparr>callImg = arrayGet imgs (min (imgIndex tm) (int (length imgs) - 1)),
       callProgress = min 1 (max 0 ((t - currentImageStartTime tm) / currentImageDuration tm)),
       callAlpha = 1\<rparr>]"
  using assms by (auto simp add: frameCalls_def fadeDurationOf_def Let_def)

lemma arrayGet_in_range:
  "0 \<le> i \<Longrightarrow> i < int (length xs) \<Longrightarrow> arrayGet xs i = Some (xs ! nat i)"
  by (simp add: arrayGet_def)

text \<open>
  Claim C4. With transition Fade, when the computed index is not that of the last image and
  \<open>timeRemaining = currentImageDuration - (sectionElapsed - currentImageStartTime)\<close> is below
  0.5, the tick draws the current image at opacity 1 and then the next image with progress 0
  at opacity \<open>1 - timeRemaining / 0.5\<close>; both are elements of the loaded list. In every other
  case (outside the window, on the last image, or with transition None) the tick draws the
  current image alone, at opacity 1. When the elapsed time within the interval is
  \<open>currentImageDuration - 0.25\<close>, the opacity of the incoming image is 0.5.
\<close>

theorem C4_cross_fade:
  "(\<forall>imgs tm t. imgIndex tm < int (length imgs) - 1
        \<and> currentImageDuration tm - (t - currentImageStartTime tm) < 0.5 \<longrightarrow>
      frameCalls Fade imgs tm t =
        [\<lparr>callImg = arrayGet imgs (min (imgIndex tm) (int (length imgs) - 1)),
          callProgress =
            min 1 (max 0 ((t - currentImageStartTime tm) / currentImageDuration tm)),
          callAlpha = 1\<rparr>,
         \<lparr>callImg = arrayGet imgs (imgIndex tm + 1), callProgress = 0,
          callAlpha = 1 - (currentImageDuration tm - (t - currentImageStartTime tm)) / 0.5\<rparr>])
   \<and> (\<forall>(imgs :: image list) (tm :: timing). 0 \<le> imgIndex tm \<and> imgIndex tm < int (length imgs) - 1 \<longrightarrow>
      arrayGet imgs (min (imgIndex tm) (int (length imgs) - 1)) = Some (imgs ! nat (imgIndex tm))
      \<and> arrayGet imgs (imgIndex tm + 1) = Some (imgs ! (nat (imgIndex tm) + 1)))
   \<and> (\<forall>tr imgs tm t. \<not> (tr = Fade \<and> imgIndex tm < int (length imgs) - 1
        \<and> currentImageDuration tm - (t - currentImageStartTime tm) < 0.5) \<longrightarrow>
      frameCalls tr imgs tm t =
        [\<lparr>callImg = arrayGet imgs (min (imgIndex tm) (int (length imgs) - 1)),
          callProgress =
            min 1 (max 0 ((t - currentImageStartTime tm) / currentImageDuration tm)),
          callAlpha = 1\<rparr>])
   \<and> (\<forall>imgs tm t. imgIndex tm < int (length imgs) - 1
        \<and> t - currentImageStartTime tm = currentImageDuration tm - 0.25 \<longrightarrow>
      map callAlpha (frameCalls Fade imgs tm t) = [1, 0.5])"
proof -
  have a: "\<forall>imgs tm t. imgIndex tm < int (length imgs) - 1
        \<and> currentImageDuration tm - (t - currentImageStartTime tm) < 0.5 \<longrightarrow>
      frameCalls Fade imgs tm t =
        [\<lparr>callImg = arrayGet imgs (min (imgIndex tm) (int (length imgs) - 1)),
          callProgress =
            min 1 (max 0 ((t - currentImageStartTime tm) / currentImageDuration tm)),
          callAlpha = 1\<rparr>,
         \<lparr>callImg = arrayGet imgs (imgIndex tm + 1), callProgress = 0,
          callAlpha = 1 - (currentImageDuration tm - (t - currentImageStartTime tm)) / 0.5\<rparr>]"
    by (intro allI impI, elim conjE, rule frameCalls_fade [OF refl]; assumption)
  have b: "\<forall>(imgs :: image list) (tm :: timing). 0 \<le> imgIndex tm \<and> imgIndex tm < int (length imgs) - 1 \<longrightarrow>
      arrayGet imgs (min (imgIndex tm) (int (length imgs) - 1)) = Some (imgs ! nat (imgIndex tm))
      \<and> arrayGet imgs (imgIndex tm + 1) = Some (imgs ! (nat (imgIndex tm) + 1))"
  proof (intro allI impI)
    fix imgs :: "image list" and tm :: timing
    assume h: "0 \<le> imgIndex tm \<and> imgIndex tm < int (length imgs) - 1"
    then have m: "min (imgIndex tm) (int (length imgs) - 1) = imgIndex tm" by simp
    have n: "nat (imgIndex tm + 1) = nat (imgIndex tm) + 1" using h by linarith
    show "arrayGet imgs (min (imgIndex tm) (int (length imgs) - 1)) = Some (imgs ! nat (imgIndex tm))
      \<and> arrayGet imgs (imgIndex tm + 1) = Some (imgs ! (nat (imgIndex tm) + 1))"
      using h by (simp add: m n arrayGet_def)
  qed
  have c: "\<forall>tr imgs tm t. \<not> (tr = Fade \<and> imgIndex tm < int (length imgs) - 1
        \<and> currentImageDuration tm - (t - currentImageStartTime tm) < 0.5) \<longrightarrow>
      frameCalls tr imgs tm t =
        [\<lparr>callImg = arrayGet imgs (min (imgIndex tm) (int (length imgs) - 1)),
          callProgress =
            min 1 (max 0 ((t - currentImageStartTime tm) / currentImageDuration tm)),
          callAlpha = 1\<rparr>]"
    by (intro allI impI, rule frameCalls_plain, assumption)
  have d: "\<forall>imgs tm t. imgIndex tm < int (length imgs) - 1
        \<and> t - currentImageStartTime tm = currentImageDuration tm - 0.25 \<longrightarrow>
      map callAlpha (frameCalls Fade imgs tm t) = [1, 0.5]"
  proof (intro allI impI)
    fix imgs :: "image list" and tm :: timing and t :: real
    assume h: "imgIndex tm < int (length imgs) - 1
        \<and> t - currentImageStartTime tm = currentImageDuration tm - 0.25"
    then have r: "currentImageDuration tm - (t - currentImageStartTime tm) = 0.25" by simp
    then have "currentImageDuration tm - (t - currentImageStartTime tm) < 0.5" by simp
    from frameCalls_fade [OF refl conjunct1 [OF h] this]
    show "map callAlpha (frameCalls Fade imgs tm t) = [1, 0.5]"
      by (simp add: r)
  qed
  show ?thesis by (intro conjI a b c d)
qed

theorem C4_cross_fade_witness:
  "frameCalls Fade
     [\<lparr>src = ''a'', width = 4, height = 3\<rparr>, \<lparr>src = ''b'', width = 4, height = 3\<rparr>]
     (imageTiming False 2 4 (7 / 4)) (7 / 4) =
     [\<lparr>callImg = Some \<lparr>src = ''a'', width = 4, height = 3\<rparr>, callProgress = 7 / 8,
       callAlpha = 1\<rparr>,
      \<lparr>callImg = Some \<lparr>src = ''b'', width = 4, height = 3\<rparr>, callProgress = 0,
       callAlpha = 1 / 2\<rparr>]
   \<and> frameCalls Fade
     [\<lparr>src = ''a'', width = 4, height = 3\<rparr>, \<lparr>src = ''b'', width = 4, height = 3\<rparr>]
     (imageTiming False 2 4 1) 1 =
     [\<lparr>callImg = Some \<lparr>src = ''a'', width = 4, height = 3\<rparr>, callProgress = 1 / 2,
       callAlpha = 1\<rparr>]
   \<and> frameCalls NoTransition
     [\<lparr>src = ''a'', width = 4, height = 3\<rparr>, \<lparr>src = ''b'', width = 4, height = 3\<rparr>]
     (imageTiming False 2 4 (7 / 4)) (7 / 4) =
     [\<lparr>callImg = Some \<lparr>src = ''a'', width = 4, height = 3\<rparr>, callProgress = 7 / 8,
       callAlpha = 1\<rparr>]"
proof -
  have tm1: "imageTiming False 2 4 (7 / 4) =
      \<lparr>imgIndex = 0, currentImageStartTime = 0, currentImageDuration = 2\<rparr>"
    by code_simp
  have tm2: "imageTiming False 2 4 1 =
      \<lparr>imgIndex = 0, currentImageStartTime = 0, currentImageDuration = 2\<rparr>"
    by code_simp
  note fade = C4_cross_fade [THEN conjunct1, rule_format]
  note plain = C4_cross_fade [THEN conjunct2, THEN conjunct2, THEN conjunct1, rule_format]
  have "frameCalls Fade
     [\<lparr>src = ''a'', width = 4, height = 3\<rparr>, \<lparr>src = ''b'', width = 4, height = 3\<rparr>]
     (imageTiming False 2 4 (7 / 4)) (7 / 4) =
     [\<lparr>callImg = Some \<lparr>src = ''a'', width = 4, height = 3\<rparr>, callProgress = 7 / 8,
       callAlpha = 1\<rparr>,
      \<lparr>callImg = Some \<lparr>src = ''b'', width = 4, height = 3\<rparr>, callProgress = 0,
       callAlpha = 1 / 2\<rparr>]"
    unfolding tm1 by (subst fade) (simp_all add: arrayGet_def)
  moreover have "frameCalls Fade
     [\<lparr>src = ''a'', width = 4, height = 3\<rparr>, \<lparr>src = ''b'', width = 4, height = 3\<rparr>]
     (imageTiming False 2 4 1) 1 =
     [\<lparr>callImg = Some \<lparr>src = ''a'', width = 4, height = 3\<rparr>, callProgress = 1 / 2,
       callAlpha = 1\<rparr>]"
    unfolding tm2 by (subst plain) (simp_all add: arrayGet_def)
  moreover have "frameCalls NoTransition
     [\<lparr>src = ''a'', width = 4, height = 3\<rparr>, \<lparr>src = ''b'', width = 4, height = 3\<rparr>]
     (imageTiming False 2 4 (7 / 4)) (7 / 4) =
     [\<lparr>callImg = Some \<lparr>src = ''a'', width = 4, height = 3\<rparr>, callProgress = 7 / 8,
       callAlpha = 1\<rparr>]"
    unfolding tm1 by (subst plain) (simp_all add: arrayGet_def)
  ultimately show ?thesis by (intro conjI)
qed

lemma drawImage_noop:
  assumes "callImg c = None \<or> (\<exists>img. callImg c = Some img \<and> width img = 0)"
  shows "drawImage W H mz c = []"
  using assms by (auto simp add: drawImage_def)

lemma renderFrame_failed_current:
  assumes tm: "tm = imageTiming h (length imgs) D t"
    and cur: "arrayGet imgs (min (imgIndex tm) (int (length imgs) - 1)) = Some img"
    and w: "width img = 0"
  shows "renderFrame W H mz tr h imgs D t =
     (if tr = Fade \<and> imgIndex tm < int (length imgs) - 1
         \<and> currentImageDuration tm - (t - currentImageStartTime tm) < 0.5
      then drawImage W H mz
        \<lparr>callImg = arrayGet imgs (imgIndex tm + 1), callProgress = 0,
         callAlpha = 1 - (currentImageDuration tm - (t - currentImageStartTime tm)) / 0.5\<rparr>
      else [])"
proof (cases "tr = Fade \<and> imgIndex tm < int (length imgs) - 1
         \<and> currentImageDuration tm - (t - currentImageStartTime tm) < 0.5")
  case True
  have "frameCalls tr imgs tm t =
     [\<lparr>callImg = arrayGet imgs (min (imgIndex tm) (int (length imgs) - 1)),
       callProgress = min 1 (max 0 ((t - currentImageStartTime tm) / currentImageDuration tm)),
       callAlpha = 1\<rparr>,
      \<lparr>callImg = arrayGet imgs (imgIndex tm + 1), callProgress = 0,
       callAlpha = 1 - (currentImageDuration tm - (t - currentImageStartTime tm)) / 0.5\<rparr>]"
    by (rule frameCalls_fade) (use True in blast)+
  then have calls: "frameCalls tr imgs tm t =
     [\<lparr>callImg = Some img,
       callProgress = min 1 (max 0 ((t - currentImageStartTime tm) / currentImageDuration tm)),
       callAlpha = 1\<rparr>,
      \<lparr>callImg = arrayGet imgs (imgIndex tm + 1), callProgress = 0,
       callAlpha = 1 - (currentImageDuration tm - (t - currentImageStartTime tm)) / 0.5\<rparr>]"
    by (simp only: cur)
  have "drawImage W H mz \<lparr>callImg = Some img,
       callProgress = min 1 (max 0 ((t - currentImageStartTime tm) / currentImageDuration tm)),
       callAlpha = 1\<rparr> = []"
    by (rule drawImage_noop) (simp add: w)
  then have "renderFrame W H mz tr h imgs D t = drawImage W H mz
        \<lparr>callImg = arrayGet imgs (imgIndex tm + 1), callProgress = 0,
         callAlpha = 1 - (currentImageDuration tm - (t - currentImageStartTime tm)) / 0.5\<rparr>"
    by (simp add: renderFrame_def tm [symmetric] calls)
  then show ?thesis by (simp only: if_P [OF True])
next
  case False
  have "frameCalls tr imgs tm t =
     [\<lparr>callImg = arrayGet imgs (min (imgIndex tm) (int (length imgs) - 1)),
       callProgress = min 1 (max 0 ((t - currentImageStartTime tm) / currentImageDuration tm)),
       callAlpha = 1\<rparr>]"
    by (rule frameCalls_plain) (rule False)
  then have calls: "frameCalls tr imgs tm t =
     [\<lparr>callImg = Some img,
       callProgress = min 1 (max 0 ((t - currentImageStartTime tm) / currentImageDuration tm)),
       callAlpha = 1\<rparr>]"
    by (simp only: cur)
  have "drawImage W H mz \<lparr>callImg = Some img,
       callProgress = min 1 (max 0 ((t - currentImageStartTime tm) / currentImageDuration tm)),
       callAlpha = 1\<rparr> = []"
    by (rule drawImage_noop) (simp add: w)
  then have "renderFrame W H mz tr h imgs D t = []"
    by (simp add: renderFrame_def tm [symmetric] calls)
  then show ?thesis by (simp only: if_not_P [OF False])
qed

text \<open>
  Claim C10 as stated fails in the cross-fade window. Two sources, the first of which fails to
  load; no title card, no narration (duration 5), transition Fade. At elapsed time 2.25 the
  active image is the failed one (index 0), and the frame is not solid black: the second
  image is painted over the whole canvas at opacity 0.5.
\<close>

theorem C10_fade_counterexample:
  "preloadImage None = emptyImage
   \<and> width (preloadImage None) = 0
   \<and> arrayGet [preloadImage None, preloadImage (Some \<lparr>src = ''b'', width = 1280, height = 720\<rparr>)]
        (min (imgIndex (imageTiming False 2 5 (9 / 4))) (int 2 - 1)) = Some (preloadImage None)
   \<and> renderFrame 1280 720 (zoomFactors Medium) Fade False
        [preloadImage None, preloadImage (Some \<lparr>src = ''b'', width = 1280, height = 720\<rparr>)]
        5 (9 / 4) =
      [\<lparr>opImg = \<lparr>src = ''b'', width = 1280, height = 720\<rparr>, opX = 0, opY = 0,
        opW = 1280, opH = 720, opAlpha = 1 / 2\<rparr>]
   \<and> renderFrame 1280 720 (zoomFactors Medium) Fade False
        [preloadImage None, preloadImage (Some \<lparr>src = ''b'', width = 1280, height = 720\<rparr>)]
        5 (9 / 4) \<noteq> []"
proof -
  have tm: "imageTiming False 2 5 (9 / 4) =
      \<lparr>imgIndex = 0, currentImageStartTime = 0, currentImageDuration = 5 / 2\<rparr>"
    by code_simp
  have tm': "imageTiming False (Suc (Suc 0)) 5 (9 / 4) =
      \<lparr>imgIndex = 0, currentImageStartTime = 0, currentImageDuration = 5 / 2\<rparr>"
    by code_simp
  have fr: "renderFrame 1280 720 (zoomFactors Medium) Fade False
        [preloadImage None, preloadImage (Some \<lparr>src = ''b'', width = 1280, height = 720\<rparr>)]
        5 (9 / 4) =
      [\<lparr>opImg = \<lparr>src = ''b'', width = 1280, height = 720\<rparr>, opX = 0, opY = 0,
        opW = 1280, opH = 720, opAlpha = 1 / 2\<rparr>]"
    by (simp add: renderFrame_def tm' frameCalls_def fadeDurationOf_def arrayGet_def
        preloadImage_def emptyImage_def drawImage_def currentScale_def Let_def)
  have "preloadImage None = emptyImage" by (simp add: preloadImage_def)
  moreover have "width (preloadImage None) = 0" by (simp add: preloadImage_def emptyImage_def)
  moreover have "arrayGet [preloadImage None, preloadImage (Some \<lparr>src = ''b'', width = 1280, height = 720\<rparr>)]
        (min (imgIndex (imageTiming False 2 5 (9 / 4))) (int 2 - 1)) = Some (preloadImage None)"
    by (simp add: tm arrayGet_def)
  moreover note fr
  moreover have "renderFrame 1280 720 (zoomFactors Medium) Fade False
        [preloadImage None, preloadImage (Some \<lparr>src = ''b'', width = 1280, height = 720\<rparr>)]
        5 (9 / 4) \<noteq> []"
    by (simp add: fr)
  ultimately show ?thesis by (intro conjI)
qed

text \<open>
  Claim C10, amended. Preloading always resolves: a source that fails to load resolves to the
  empty image, whose width is 0. The draw helper paints nothing for a missing image and for
  an image of width 0. On a tick whose current image has width 0, nothing is painted for it:
  the frame is solid black, except in the cross-fade window of transition Fade on an image
  that is not the last, where the frame holds exactly what the draw of the incoming image
  paints. With transition None the frame is solid black.
\<close>

theorem C10_failed_image_paints_nothing:
  "preloadImage None = emptyImage \<and> width emptyImage = 0
   \<and> (\<forall>img. preloadImage (Some img) = img)
   \<and> (\<forall>W H mz c. callImg c = None \<or> (\<exists>img. callImg c = Some img \<and> width img = 0) \<longrightarrow>
         drawImage W H mz c = [])
   \<and> (\<forall>W H mz tr h imgs D t tm img.
         tm = imageTiming h (length imgs) D t
         \<and> arrayGet imgs (min (imgIndex tm) (int (length imgs) - 1)) = Some img
         \<and> width img = 0 \<longrightarrow>
         renderFrame W H mz tr h imgs D t =
           (if tr = Fade \<and> imgIndex tm < int (length imgs) - 1
               \<and> currentImageDuration tm - (t - currentImageStartTime tm) < 0.5
            then drawImage W H mz
              \<lparr>callImg = arrayGet imgs (imgIndex tm + 1), callProgress = 0,
               callAlpha =
                 1 - (currentImageDuration tm - (t - currentImageStartTime tm)) / 0.5\<rparr>
            else []))
   \<and> (\<forall>W H mz h imgs D t img.
         arrayGet imgs (min (imgIndex (imageTiming h (length imgs) D t)) (int (length imgs) - 1))
           = Some img
         \<and> width img = 0 \<longrightarrow>
         renderFrame W H mz NoTransition h imgs D t = [])"
proof -
  have a: "preloadImage None = emptyImage" by (simp add: preloadImage_def)
  have b: "width emptyImage = 0" by (simp add: emptyImage_def)
  have c: "\<forall>img. preloadImage (Some img) = img" by (simp add: preloadImage_def)
  have d: "\<forall>W H mz c. callImg c = None \<or> (\<exists>img. callImg c = Some img \<and> width img = 0) \<longrightarrow>
         drawImage W H mz c = []"
    by (intro allI impI, rule drawImage_noop, assumption)
  have e: "\<forall>W H mz tr h imgs D t tm img.
         tm = imageTiming h (length imgs) D t
         \<and> arrayGet imgs (min (imgIndex tm) (int (length imgs) - 1)) = Some img
         \<and> width img = 0 \<longrightarrow>
         renderFrame W H mz tr h imgs D t =
           (if tr = Fade \<and> imgIndex tm < int (length imgs) - 1
               \<and> currentImageDuration tm - (t - currentImageStartTime tm) < 0.5
            then drawImage W H mz
              \<lparr>callImg = arrayGet imgs (imgIndex tm + 1), callProgress = 0,
               callAlpha =
                 1 - (currentImageDuration tm - (t - currentImageStartTime tm)) / 0.5\<rparr>
            else [])"
    by (intro allI impI, elim conjE, rule renderFrame_failed_current; assumption)
  have f: "\<forall>W H mz h imgs D t img.
         arrayGet imgs (min (imgIndex (imageTiming h (length imgs) D t)) (int (length imgs) - 1))
           = Some img
         \<and> width img = 0 \<longrightarrow>
         renderFrame W H mz NoTransition h imgs D t = []"
  proof (intro allI impI, elim conjE)
    fix W H mz :: real and h :: bool and imgs :: "image list" and D t :: real and img :: image
    assume cur: "arrayGet imgs (min (imgIndex (imageTiming h (length imgs) D t)) (int (length imgs) - 1))
           = Some img" and w: "width img = 0"
    from renderFrame_failed_current [OF refl cur w, of W H mz NoTransition]
    show "renderFrame W H mz NoTransition h imgs D t = []" by simp
  qed
  show ?thesis by (intro conjI a b c d e f)
qed

theorem C10_failed_image_paints_nothing_witness:
  "renderFrame 1280 720 (zoomFactors Medium) NoTransition False
     [preloadImage None, preloadImage (Some \<lparr>src = ''b'', width = 1280, height = 720\<rparr>)]
     5 (9 / 4) = []
   \<and> renderFrame 1280 720 (zoomFactors Medium) Fade False
     [preloadImage None, preloadImage (Some \<lparr>src = ''b'', width = 1280, height = 720\<rparr>)]
     5 1 = []
   \<and> drawImage 1280 720 (zoomFactors Medium)
       \<lparr>callImg = Some (preloadImage None), callProgress = 1 / 2, callAlpha = 1\<rparr> = []"
proof -
  note th = C10_failed_image_paints_nothing
  note dr = th [THEN conjunct2, THEN conjunct2, THEN conjunct2, THEN conjunct1, rule_format]
  note fr = th [THEN conjunct2, THEN conjunct2, THEN conjunct2, THEN conjunct2, THEN conjunct1,
      rule_format]
  note no = th [THEN conjunct2, THEN conjunct2, THEN conjunct2, THEN conjunct2, THEN conjunct2,
      rule_format]
  have tm1: "imageTiming False (Suc (Suc 0)) 5 (9 / 4) =
      \<lparr>imgIndex = 0, currentImageStartTime = 0, currentImageDuration = 5 / 2\<rparr>"
    by code_simp
  have tm2: "imageTiming False (Suc (Suc 0)) 5 1 =
      \<lparr>imgIndex = 0, currentImageStartTime = 0, currentImageDuration = 5 / 2\<rparr>"
    by code_simp
  have "renderFrame 1280 720 (zoomFactors Medium) NoTransition False
     [preloadImage None, preloadImage (Some \<lparr>src = ''b'', width = 1280, height = 720\<rparr>)]
     5 (9 / 4) = []"
    by (rule no [where img = emptyImage])
      (simp add: tm1 arrayGet_def preloadImage_def emptyImage_def)
  moreover have "renderFrame 1280 720 (zoomFactors Medium) Fade False
     [preloadImage None, preloadImage (Some \<lparr>src = ''b'', width = 1280, height = 720\<rparr>)]
     5 1 = []"
    by (subst fr [where img = emptyImage and tm = "\<lparr>imgIndex = 0, currentImageStartTime = 0, currentImageDuration = 5 / 2\<rparr>"])
      (simp_all add: tm2 arrayGet_def preloadImage_def emptyImage_def)
  moreover have "drawImage 1280 720 (zoomFactors Medium)
       \<lparr>callImg = Some (preloadImage None), callProgress = 1 / 2, callAlpha = 1\<rparr> = []"
    by (rule dr) (simp add: preloadImage_def emptyImage_def)
  ultimately show ?thesis by (intro conjI)
qed

section \<open>Properties of the section loop\<close>

lemma sectionBody_skip:
  "validSrcs s = [] \<Longrightarrow> sectionBody env W H mz tr s vb clock = Some ([], clock)"
  by (simp add: sectionBody_def Let_def)

lemma renderSection_skip:
  assumes "validSrcs s = []"
  shows "renderSection env W H mz tr s clock =
     Some (Progress (''Rendering: '' @ sectionName s) # fst (decodeVoice env s), clock)"
  by (simp add: renderSection_def sectionBody_skip [OF assms] split: prod.splits)

lemma decodeVoice_events:
  "e \<in> set (fst (decodeVoice env s)) \<Longrightarrow> \<not> isFrame e \<and> \<not> isVoiceEvent e \<and> \<not> isBgEvent e"
  by (auto simp add: decodeVoice_def split: if_splits option.splits)

lemma validSrcs_empty_iff:
  "validSrcs s = [] \<longleftrightarrow> \<not> truthy (titleCard s) \<and> (\<forall>i \<in> set (generatedImages s). i = [])"
  by (auto simp add: validSrcs_def truthy_def filter_empty_conv split: option.splits)

text \<open>
  Claim C5. A section whose list of valid sources (title card, then generated images, empty
  entries discarded) is empty is skipped: its only effects are the progress message and the
  decode attempt of its narration; it draws no frame, starts no voice, reads no clock value,
  and the render goes on with the next section on the same clock.
\<close>

theorem C5_empty_section_skipped:
  assumes "validSrcs s = []"
  shows "renderSection env W H mz tr s clock =
           Some (Progress (''Rendering: '' @ sectionName s) # fst (decodeVoice env s), clock)
       \<and> (\<forall>e \<in> set (Progress (''Rendering: '' @ sectionName s) # fst (decodeVoice env s)).
             \<not> isFrame e \<and> \<not> isVoiceEvent e)
       \<and> renderSections env W H mz tr (s # rest) clock =
           (case renderSections env W H mz tr rest clock of
              None \<Rightarrow> None
            | Some (evs, clock') \<Rightarrow>
                Some (Progress (''Rendering: '' @ sectionName s) # fst (decodeVoice env s) @ evs,
                      clock'))
       \<and> \<not> truthy (titleCard s) \<and> (\<forall>i \<in> set (generatedImages s). i = [])"
proof -
  note skip = renderSection_skip [OF assms]
  have a: "\<forall>e \<in> set (Progress (''Rendering: '' @ sectionName s) # fst (decodeVoice env s)).
             \<not> isFrame e \<and> \<not> isVoiceEvent e"
    using decodeVoice_events by auto
  have b: "renderSections env W H mz tr (s # rest) clock =
           (case renderSections env W H mz tr rest clock of
              None \<Rightarrow> None
            | Some (evs, clock') \<Rightarrow>
                Some (Progress (''Rendering: '' @ sectionName s) # fst (decodeVoice env s) @ evs,
                      clock'))"
    by (simp add: skip split: option.splits)
  have c: "\<not> truthy (titleCard s) \<and> (\<forall>i \<in> set (generatedImages s). i = [])"
    using assms validSrcs_empty_iff [of s] by blast
  show ?thesis by (intro conjI skip a b c [THEN conjunct1] c [THEN conjunct2])
qed

theorem C5_empty_section_skipped_witness:
  "validSrcs \<lparr>title = None, generatedImages = [[]], generatedAudio = None, titleCard = Some []\<rparr> = []
   \<and> renderSection \<lparr>canvasContext = True, decodeAudioData = (\<lambda>src. None), loadImage = (\<lambda>src. None)\<rparr>
        1280 720 (zoomFactors Medium) NoTransition
        \<lparr>title = None, generatedImages = [[]], generatedAudio = None, titleCard = Some []\<rparr>
        [0, 1] = Some ([Progress ''Rendering: Intro''], [0, 1])
   \<and> renderSections \<lparr>canvasContext = True, decodeAudioData = (\<lambda>src. None), loadImage = (\<lambda>src. None)\<rparr>
        1280 720 (zoomFactors Medium) NoTransition
        [\<lparr>title = None, generatedImages = [[]], generatedAudio = None, titleCard = Some []\<rparr>]
        [0, 1] = Some ([Progress ''Rendering: Intro''], [0, 1])"
proof -
  have h: "validSrcs \<lparr>title = None, generatedImages = [[]], generatedAudio = None, titleCard = Some []\<rparr> = []"
    by (simp add: validSrcs_def truthy_def)
  have d: "fst (decodeVoice \<lparr>canvasContext = True, decodeAudioData = (\<lambda>src. None), loadImage = (\<lambda>src. None)\<rparr>
      \<lparr>title = None, generatedImages = [[]], generatedAudio = None, titleCard = Some []\<rparr>) = []"
    by (simp add: decodeVoice_def truthy_def)
  have n: "sectionName \<lparr>title = None, generatedImages = [[]], generatedAudio = None, titleCard = Some []\<rparr> = ''Intro''"
    by (simp add: sectionName_def truthy_def)
  note th = C5_empty_section_skipped [OF h,
      of "\<lparr>canvasContext = True, decodeAudioData = (\<lambda>src. None), loadImage = (\<lambda>src. None)\<rparr>"
         1280 720 "zoomFactors Medium" NoTransition "[0, 1]" "[]"]
  have "renderSection \<lparr>canvasContext = True, decodeAudioData = (\<lambda>src. None), loadImage = (\<lambda>src. None)\<rparr>
        1280 720 (zoomFactors Medium) NoTransition
        \<lparr>title = None, generatedImages = [[]], generatedAudio = None, titleCard = Some []\<rparr>
        [0, 1] = Some ([Progress ''Rendering: Intro''], [0, 1])"
    using th [THEN conjunct1] by (simp add: d n)
  moreover have "renderSections \<lparr>canvasContext = True, decodeAudioData = (\<lambda>src. None), loadImage = (\<lambda>src. None)\<rparr>
        1280 720 (zoomFactors Medium) NoTransition
        [\<lparr>title = None, generatedImages = [[]], generatedAudio = None, titleCard = Some []\<rparr>]
        [0, 1] = Some ([Progress ''Rendering: Intro''], [0, 1])"
    using th [THEN conjunct2, THEN conjunct2, THEN conjunct1] by (simp add: d n)
  ultimately show ?thesis using h by (intro conjI)
qed

lemma animationLoop_eq:
  "animationLoop f hv D st clock =
     (if \<exists>c \<in> set clock. D \<le> c - st then
        Some (map (\<lambda>c. Frame (f (c - st))) (takeWhile (\<lambda>c. c - st < D) clock)
                @ (if hv then [VoiceStop] else []),
              tl (dropWhile (\<lambda>c. c - st < D) clock))
      else None)"
proof (induction clock)
  case Nil
  show ?case by simp
next
  case (Cons c clock)
  show ?case
  proof (cases "D \<le> c - st")
    case True
    then show ?thesis by (simp add: Let_def)
  next
    case False
    then have lt: "c - st < D" by simp
    show ?thesis using False lt by (simp add: Let_def Cons.IH)
  qed
qed

lemma decodeVoice_cases:
  "decodeVoice env s =
     (if truthy (generatedAudio s) then
        (case decodeAudioData env (the (generatedAudio s)) of
           Some d \<Rightarrow> ([Decode (the (generatedAudio s))], Some d)
         | None \<Rightarrow> ([Decode (the (generatedAudio s)),
                      Warn (''Audio decode failed for section '' @ sectionName s)], None))
      else ([], None))"
  by (simp add: decodeVoice_def)

lemma sectionDuration_decodeVoice:
  "sectionDuration (snd (decodeVoice env s)) =
     (if truthy (generatedAudio s) then
        (case decodeAudioData env (the (generatedAudio s)) of Some d \<Rightarrow> d | None \<Rightarrow> 5)
      else 5)"
  by (simp add: decodeVoice_def sectionDuration_def split: option.splits)

lemma renderSection_plays:
  assumes dv: "decodeVoice env s = (devs, vb)" and D: "D = sectionDuration vb"
    and srcs: "validSrcs s \<noteq> []"
  shows "renderSection env W H mz tr s (st # rest) =
     (if \<exists>c \<in> set rest. D \<le> c - st then
        Some (Progress (''Rendering: '' @ sectionName s) # devs
                @ (case vb of Some d \<Rightarrow> [VoiceStart d] | None \<Rightarrow> [])
                @ map (\<lambda>c. Frame (renderFrame W H mz tr (truthy (titleCard s))
                          (map (\<lambda>src. preloadImage (loadImage env src)) (validSrcs s))
                          D (c - st)))
                    (takeWhile (\<lambda>c. c - st < D) rest)
                @ (if vb \<noteq> None then [VoiceStop] else []),
              tl (dropWhile (\<lambda>c. c - st < D) rest))
      else None)"
  using srcs
  by (simp add: renderSection_def dv sectionBody_def Let_def D [symmetric] animationLoop_eq)

lemma renderVideo_no_throw:
  "canvasContext env \<Longrightarrow> renderVideo env data clock \<noteq> Some (Inl e)"
  by (simp add: renderVideo_def Let_def split: prod.splits option.splits)

text \<open>
  Claim C6. The duration of a section's timeline is the duration of the decoded narration
  buffer when the section has narration and its decode succeeds, and 5 when the narration is
  absent or its decode fails. A section that plays draws one frame per tick whose elapsed
  time is below that duration and ends at the first tick at or beyond it. A decode failure
  is logged as a warning and the section is rendered without voice on a timeline of 5; the
  render itself never throws when the canvas context exists.
\<close>

theorem C6_section_duration:
  "(\<not> truthy (generatedAudio s) \<longrightarrow> decodeVoice env s = ([], None))
   \<and> (\<forall>d. truthy (generatedAudio s) \<and> decodeAudioData env (the (generatedAudio s)) = Some d \<longrightarrow>
         decodeVoice env s = ([Decode (the (generatedAudio s))], Some d))
   \<and> (truthy (generatedAudio s) \<and> decodeAudioData env (the (generatedAudio s)) = None \<longrightarrow>
         decodeVoice env s =
           ([Decode (the (generatedAudio s)),
             Warn (''Audio decode failed for section '' @ sectionName s)], None))
   \<and> sectionDuration (snd (decodeVoice env s)) =
       (if truthy (generatedAudio s) then
          (case decodeAudioData env (the (generatedAudio s)) of Some d \<Rightarrow> d | None \<Rightarrow> 5)
        else 5)
   \<and> (\<forall>devs vb D W H mz tr st rest.
         decodeVoice env s = (devs, vb) \<and> D = sectionDuration vb \<and> validSrcs s \<noteq> [] \<longrightarrow>
         renderSection env W H mz tr s (st # rest) =
           (if \<exists>c \<in> set rest. D \<le> c - st then
              Some (Progress (''Rendering: '' @ sectionName s) # devs
                      @ (case vb of Some d \<Rightarrow> [VoiceStart d] | None \<Rightarrow> [])
                      @ map (\<lambda>c. Frame (renderFrame W H mz tr (truthy (titleCard s))
                                (map (\<lambda>src. preloadImage (loadImage env src)) (validSrcs s))
                                D (c - st)))
                          (takeWhile (\<lambda>c. c - st < D) rest)
                      @ (if vb \<noteq> None then [VoiceStop] else []),
                    tl (dropWhile (\<lambda>c. c - st < D) rest))
            else None))
   \<and> (\<forall>data clock e. canvasContext env \<longrightarrow> renderVideo env data clock \<noteq> Some (Inl e))"
proof -
  have a: "\<not> truthy (generatedAudio s) \<longrightarrow> decodeVoice env s = ([], None)"
    by (simp add: decodeVoice_cases)
  have b: "\<forall>d. truthy (generatedAudio s) \<and> decodeAudioData env (the (generatedAudio s)) = Some d \<longrightarrow>
         decodeVoice env s = ([Decode (the (generatedAudio s))], Some d)"
    by (simp add: decodeVoice_cases)
  have c: "truthy (generatedAudio s) \<and> decodeAudioData env (the (generatedAudio s)) = None \<longrightarrow>
         decodeVoice env s =
           ([Decode (the (generatedAudio s)),
             Warn (''Audio decode failed for section '' @ sectionName s)], None)"
    by (simp add: decodeVoice_cases)
  have d: "\<forall>devs vb D W H mz tr st rest.
         decodeVoice env s = (devs, vb) \<and> D = sectionDuration vb \<and> validSrcs s \<noteq> [] \<longrightarrow>
         renderSection env W H mz tr s (st # rest) =
           (if \<exists>c \<in> set rest. D \<le> c - st then
              Some (Progress (''Rendering: '' @ sectionName s) # devs
                      @ (case vb of Some d \<Rightarrow> [VoiceStart d] | None \<Rightarrow> [])
                      @ map (\<lambda>c. Frame (renderFrame W H mz tr (truthy (titleCard s))
                                (map (\<lambda>src. preloadImage (loadImage env src)) (validSrcs s))
                                D (c - st)))
                          (takeWhile (\<lambda>c. c - st < D) rest)
                      @ (if vb \<noteq> None then [VoiceStop] else []),
                    tl (dropWhile (\<lambda>c. c - st < D) rest))
            else None)"
    by (intro allI impI, elim conjE, rule renderSection_plays; assumption)
  have e: "\<forall>data clock e. canvasContext env \<longrightarrow> renderVideo env data clock \<noteq> Some (Inl e)"
    by (intro allI impI, rule renderVideo_no_throw, assumption)
  show ?thesis by (intro conjI a b c sectionDuration_decodeVoice d e)
qed

theorem C6_section_duration_witness:
  "renderSection
     \<lparr>canvasContext = True, decodeAudioData = (\<lambda>src. None), loadImage = (\<lambda>src. None)\<rparr>
     1280 720 (zoomFactors Medium) NoTransition
     \<lparr>title = Some ''A'', generatedImages = [''i''], generatedAudio = Some ''v'',
      titleCard = None\<rparr>
     [0, 2, 5, 6] =
     Some ([Progress ''Rendering: A'', Decode ''v'',
            Warn ''Audio decode failed for section A'', Frame []], [6])
   \<and> sectionDuration (snd (decodeVoice
        \<lparr>canvasContext = True, decodeAudioData = (\<lambda>src. Some 3), loadImage = (\<lambda>src. None)\<rparr>
        \<lparr>title = Some ''A'', generatedImages = [''i''], generatedAudio = Some ''v'',
         titleCard = None\<rparr>)) = 3
   \<and> sectionDuration (snd (decodeVoice
        \<lparr>canvasContext = True, decodeAudioData = (\<lambda>src. Some 3), loadImage = (\<lambda>src. None)\<rparr>
        \<lparr>title = Some ''A'', generatedImages = [''i''], generatedAudio = None,
         titleCard = None\<rparr>)) = 5
   \<and> renderVideo
        \<lparr>canvasContext = True, decodeAudioData = (\<lambda>src. None), loadImage = (\<lambda>src. None)\<rparr>
        \<lparr>intro = \<lparr>title = Some ''A'', generatedImages = [''i''], generatedAudio = Some ''v'',
                  titleCard = None\<rparr>,
         parts = [], config = None, backgroundMusic = None\<rparr>
        [0, 2, 5, 6] \<noteq> Some (Inl CanvasContextError)"
proof -
  let ?env = "\<lparr>canvasContext = True, decodeAudioData = (\<lambda>src. None), loadImage = (\<lambda>src. None)\<rparr>"
  let ?s = "\<lparr>title = Some ''A'', generatedImages = [''i''], generatedAudio = Some ''v'',
      titleCard = None\<rparr>"
  have dv: "decodeVoice ?env ?s =
      ([Decode ''v'', Warn ''Audio decode failed for section A''], None)"
    using C6_section_duration [of ?s ?env, THEN conjunct2, THEN conjunct2, THEN conjunct1]
    by (simp add: truthy_def sectionName_def)
  have srcs: "validSrcs ?s = [''i'']"
    by (simp add: validSrcs_def truthy_def)
  have fr: "\<And>t. renderFrame 1280 720 (zoomFactors Medium) NoTransition False [emptyImage] 5 t = []"
    by (simp add: renderFrame_def frameCalls_def Let_def arrayGet_def drawImage_def emptyImage_def)
  have "renderSection ?env 1280 720 (zoomFactors Medium) NoTransition ?s (0 # [2, 5, 6]) =
     Some ([Progress ''Rendering: A'', Decode ''v'',
            Warn ''Audio decode failed for section A'', Frame []], [6])"
    by (subst C6_section_duration [of ?s ?env, THEN conjunct2, THEN conjunct2, THEN conjunct2,
          THEN conjunct2, THEN conjunct1, rule_format,
          of "[Decode ''v'', Warn ''Audio decode failed for section A'']" None 5])
      (simp_all add: dv srcs sectionDuration_def sectionName_def truthy_def preloadImage_def fr)
  moreover have "sectionDuration (snd (decodeVoice
        \<lparr>canvasContext = True, decodeAudioData = (\<lambda>src. Some 3), loadImage = (\<lambda>src. None)\<rparr>
        \<lparr>title = Some ''A'', generatedImages = [''i''], generatedAudio = Some ''v'',
         titleCard = None\<rparr>)) = 3"
    by (subst C6_section_duration [THEN conjunct2, THEN conjunct2, THEN conjunct2, THEN conjunct1])
      (simp add: truthy_def)
  moreover have "sectionDuration (snd (decodeVoice
        \<lparr>canvasContext = True, decodeAudioData = (\<lambda>src. Some 3), loadImage = (\<lambda>src. None)\<rparr>
        \<lparr>title = Some ''A'', generatedImages = [''i''], generatedAudio = None,
         titleCard = None\<rparr>)) = 5"
    by (subst C6_section_duration [THEN conjunct2, THEN conjunct2, THEN conjunct2, THEN conjunct1])
      (simp add: truthy_def)
  moreover have "renderVideo ?env
        \<lparr>intro = ?s, parts = [], config = None, backgroundMusic = None\<rparr>
        [0, 2, 5, 6] \<noteq> Some (Inl CanvasContextError)"
    by (rule C6_section_duration [THEN conjunct2, THEN conjunct2, THEN conjunct2, THEN conjunct2,
          THEN conjunct2, rule_format]) simp
  ultimately show ?thesis by simp
qed

section \<open>Properties of the background track\<close>



























section \<open>Properties of the title card\<close>

lemma splitSpaces_nonempty: "splitSpaces t \<noteq> []"
  by (induction t) (auto split: list.splits)

lemma splitSpaces_join: "concat (map (\<lambda>w. w @ '' '') (splitSpaces t)) = t @ '' ''"
proof (induction t)
  case Nil
  show ?case by simp
next
  case (Cons c cs)
  show ?case
  proof (cases "c = CHR '' ''")
    case True
    then show ?thesis using Cons.IH by simp
  next
    case False
    obtain w ws where sp: "splitSpaces cs = w # ws"
      using splitSpaces_nonempty [of cs] by (cases "splitSpaces cs") auto
    then show ?thesis using False Cons.IH by simp
  qed
qed

lemma wrapLines_concat:
  "concat (wrapLines m mw n ws line lines) =
     concat lines @ line @ concat (map (\<lambda>w. w @ '' '') ws)"
  by (induction ws arbitrary: n line lines) (simp_all add: Let_def)

lemma wrapLines_nonempty: "wrapLines m mw n ws line lines \<noteq> []"
  by (induction ws arbitrary: n line lines) (simp_all add: Let_def)

lemma wrapLines_fit:
  assumes "\<forall>l \<in> set lines. m l \<le> mw \<or> (\<exists>w \<in> W. l = w @ '' '')"
    and "if n = 0 then line = [] \<and> ws \<noteq> [] else m line \<le> mw \<or> (\<exists>w \<in> W. line = w @ '' '')"
    and "set ws \<subseteq> W"
  shows "\<forall>l \<in> set (wrapLines m mw n ws line lines). m l \<le> mw \<or> (\<exists>w \<in> W. l = w @ '' '')"
  using assms
proof (induction ws arbitrary: n line lines)
  case Nil
  then show ?case by (auto split: if_splits)
next
  case (Cons w ws)
  have wW: "w \<in> W" using Cons.prems(3) by simp
  have sub: "set ws \<subseteq> W" using Cons.prems(3) by simp
  show ?case
  proof (cases "m (line @ w @ '' '') > mw \<and> n > 0")
    case True
    then have pl: "m line \<le> mw \<or> (\<exists>w \<in> W. line = w @ '' '')"
      using Cons.prems(2) by simp
    have 1: "\<forall>l \<in> set (lines @ [line]). m l \<le> mw \<or> (\<exists>w \<in> W. l = w @ '' '')"
      using Cons.prems(1) pl by auto
    have 2: "if n + 1 = 0 then w @ '' '' = [] \<and> ws \<noteq> []
             else m (w @ '' '') \<le> mw \<or> (\<exists>v \<in> W. w @ '' '' = v @ '' '')"
      using wW by auto
    have "wrapLines m mw n (w # ws) line lines =
        wrapLines m mw (n + 1) ws (w @ '' '') (lines @ [line])"
      by (simp only: wrapLines.simps Let_def if_P [OF True])
    with Cons.IH [OF 1 2 sub] show ?thesis by simp
  next
    case False
    have 2: "if n + 1 = 0 then line @ w @ '' '' = [] \<and> ws \<noteq> []
             else m (line @ w @ '' '') \<le> mw \<or> (\<exists>v \<in> W. line @ w @ '' '' = v @ '' '')"
    proof (cases "n = 0")
      case True
      then have "line = []" using Cons.prems(2) by simp
      then show ?thesis using wW by auto
    next
      case n: False
      then have "m (line @ w @ '' '') \<le> mw" using False by simp
      then show ?thesis by simp
    qed
    have "wrapLines m mw n (w # ws) line lines =
        wrapLines m mw (n + 1) ws (line @ w @ '' '') lines"
      by (simp only: wrapLines.simps Let_def if_not_P [OF False])
    with Cons.IH [OF Cons.prems(1) 2 sub] show ?thesis by simp
  qed
qed

lemma fillLines_content: "map textContent (fillLines x y lh ls) = ls"
  by (induction ls arbitrary: y) simp_all

lemma fillLines_length: "length (fillLines x y lh ls) = length ls"
  by (induction ls arbitrary: y) simp_all

lemma fillLines_x: "d \<in> set (fillLines x y lh ls) \<Longrightarrow> textX d = x"
  by (induction ls arbitrary: y) auto

lemma fillLines_y: "k < length ls \<Longrightarrow> textY (fillLines x y lh ls ! k) = y + real k * lh"
proof (induction ls arbitrary: y k)
  case Nil
  then show ?case by simp
next
  case (Cons l ls)
  show ?case
  proof (cases k)
    case 0
    then show ?thesis by simp
  next
    case (Suc j)
    then have "j < length ls" using Cons.prems by simp
    from Cons.IH [OF this, of "y + lh"] Suc show ?thesis by (simp add: algebra_simps)
  qed
qed

lemma fillLines_centred:
  assumes "ls \<noteq> []"
  shows "textY (hd (fillLines x ((H - real (length ls) * lh) / 2 + lh / 2) lh ls))
       + textY (last (fillLines x ((H - real (length ls) * lh) / 2 + lh / 2) lh ls)) = H"
proof -
  let ?y = "(H - real (length ls) * lh) / 2 + lh / 2"
  let ?f = "fillLines x ?y lh ls"
  have ne: "?f \<noteq> []" using assms fillLines_length [of x ?y lh ls] by auto
  have pos: "0 < length ls" using assms by simp
  have h: "hd ?f = ?f ! 0" using ne by (simp add: hd_conv_nth)
  have l: "last ?f = ?f ! (length ls - 1)"
    using ne by (simp add: last_conv_nth fillLines_length)
  have y0: "textY (?f ! 0) = ?y + real 0 * lh" using pos by (rule fillLines_y)
  have yl: "textY (?f ! (length ls - 1)) = ?y + real (length ls - 1) * lh"
    using pos by (intro fillLines_y) simp
  have "1 \<le> length ls" using assms by (cases ls) simp_all
  then have "real (length ls - 1) = real (length ls) - real 1" by (rule of_nat_diff)
  then show ?thesis
    unfolding h l y0 yl by (simp add: field_simps)
qed

lemma generateTitleCard_no_context: "generateTitleCard False m text ar = EmptyString"
  by (simp add: generateTitleCard_def Let_def)

lemma generateTitleCard_context:
  "generateTitleCard True m text ar =
     PngDataUrl
       \<lparr>canvasWidth = (if ar = Some ''9:16'' then 1080 else 1920),
        canvasHeight = (if ar = Some ''9:16'' then 1920 else 1080),
        background = ''#000000'', textFillStyle = ''#FFFFFF'',
        font = (if ar = Some ''9:16'' then ''bold 70px Arial, sans-serif''
                else ''bold 80px Arial, sans-serif''),
        textAlign = ''center'', textBaseline = ''middle'',
        texts =
          fillLines (real (if ar = Some ''9:16'' then 1080 else 1920) / 2)
            ((real (if ar = Some ''9:16'' then 1920 else 1080)
                - real (length (wrapLines
                    (m (if ar = Some ''9:16'' then ''bold 70px Arial, sans-serif''
                        else ''bold 80px Arial, sans-serif''))
                    (real (if ar = Some ''9:16'' then 1080 else 1920)
                       - (if ar = Some ''9:16'' then 100 else 200))
                    0 (splitSpaces text) [] []))
                  * ((if ar = Some ''9:16'' then 70 else 80) * 1.3)) / 2
             + ((if ar = Some ''9:16'' then 70 else 80) * 1.3) / 2)
            ((if ar = Some ''9:16'' then 70 else 80) * 1.3)
            (wrapLines
               (m (if ar = Some ''9:16'' then ''bold 70px Arial, sans-serif''
                   else ''bold 80px Arial, sans-serif''))
               (real (if ar = Some ''9:16'' then 1080 else 1920)
                  - (if ar = Some ''9:16'' then 100 else 200))
               0 (splitSpaces text) [] [])\<rparr>"
  by (cases ar) (simp_all add: generateTitleCard_def Let_def mult.commute)

text \<open>
  Claim C8 as stated fails when the canvas yields no 2D context: the promise then resolves
  with the empty string, which is not an image.
\<close>

theorem C8_no_context_counterexample:
  "generateTitleCard False (\<lambda>f t. real (length t) * 50) ''Hello'' (Some ''16:9'') = EmptyString"
  by (simp add: generateTitleCard_def Let_def)

text \<open>
  Claim C8, amended. \<open>generateTitleCard\<close> always resolves. Without a 2D context it resolves
  with the empty string. With a context it resolves, for every text (also the empty one) and
  every aspect-ratio argument, with the image of a canvas of 1080 x 1920 for \<open>'9:16'\<close> and
  1920 x 1080 otherwise, filled black, with white text, centred horizontally at half the
  width: the lines, in order, hold the words of the text each followed by a space; every
  line fits the maximal width or is a single word; there is at least one line; the lines are
  spaced by \<open>fontSize * 1.3\<close> and the block is centred vertically (first and last baseline
  are symmetric about the middle). The result is a function of the text, the aspect ratio and
  the font metric.
\<close>

theorem C8_title_card:
  "generateTitleCard False m text ar = EmptyString
   \<and> (\<exists>c. generateTitleCard True m text ar = PngDataUrl c
        \<and> canvasWidth c = (if ar = Some ''9:16'' then 1080 else 1920)
        \<and> canvasHeight c = (if ar = Some ''9:16'' then 1920 else 1080)
        \<and> background c = ''#000000'' \<and> textFillStyle c = ''#FFFFFF''
        \<and> textAlign c = ''center'' \<and> textBaseline c = ''middle''
        \<and> font c = (if ar = Some ''9:16'' then ''bold 70px Arial, sans-serif''
                    else ''bold 80px Arial, sans-serif'')
        \<and> texts c \<noteq> []
        \<and> (\<forall>d \<in> set (texts c). textX d = real (canvasWidth c) / 2)
        \<and> concat (map textContent (texts c)) = text @ '' ''
        \<and> (\<forall>d \<in> set (texts c).
              m (font c) (textContent d)
                \<le> real (canvasWidth c) - (if ar = Some ''9:16'' then 100 else 200)
              \<or> (\<exists>w \<in> set (splitSpaces text). textContent d = w @ '' ''))
        \<and> textY (hd (texts c)) + textY (last (texts c)) = real (canvasHeight c)
        \<and> (\<forall>k. Suc k < length (texts c) \<longrightarrow>
              textY (texts c ! Suc k) =
                textY (texts c ! k) + (if ar = Some ''9:16'' then 70 else 80) * 1.3))"
proof -
  define cw :: nat where "cw = (if ar = Some ''9:16'' then 1080 else 1920)"
  define ch :: nat where "ch = (if ar = Some ''9:16'' then 1920 else 1080)"
  define fn where "fn = (if ar = Some ''9:16'' then ''bold 70px Arial, sans-serif''
                    else ''bold 80px Arial, sans-serif'')"
  define mw :: real where "mw = real cw - (if ar = Some ''9:16'' then 100 else 200)"
  define lh :: real where "lh = (if ar = Some ''9:16'' then 70 else 80) * 1.3"
  define ls where "ls = wrapLines (m fn) mw 0 (splitSpaces text) [] []"
  define y0 where "y0 = (real ch - real (length ls) * lh) / 2 + lh / 2"
  define c where "c = \<lparr>canvasWidth = cw, canvasHeight = ch, background = ''#000000'',
      textFillStyle = ''#FFFFFF'', font = fn, textAlign = ''center'',
      textBaseline = ''middle'', texts = fillLines (real cw / 2) y0 lh ls\<rparr>"
  have res: "generateTitleCard True m text ar = PngDataUrl c"
    unfolding c_def y0_def ls_def lh_def mw_def fn_def ch_def cw_def
    by (rule generateTitleCard_context)
  have ne: "ls \<noteq> []" unfolding ls_def by (rule wrapLines_nonempty)
  have t1: "texts c \<noteq> []"
    using ne fillLines_length [of "real cw / 2" y0 lh ls] by (auto simp add: c_def)
  have t2: "\<forall>d \<in> set (texts c). textX d = real (canvasWidth c) / 2"
    using fillLines_x by (auto simp add: c_def)
  have t3: "concat (map textContent (texts c)) = text @ '' ''"
    by (simp add: c_def fillLines_content ls_def wrapLines_concat splitSpaces_join)
  have fit: "\<forall>l \<in> set ls. m fn l \<le> mw \<or> (\<exists>w \<in> set (splitSpaces text). l = w @ '' '')"
    unfolding ls_def
    by (rule wrapLines_fit) (simp_all add: splitSpaces_nonempty)
  have t4: "\<forall>d \<in> set (texts c).
              m (font c) (textContent d)
                \<le> real (canvasWidth c) - (if ar = Some ''9:16'' then 100 else 200)
              \<or> (\<exists>w \<in> set (splitSpaces text). textContent d = w @ '' '')"
  proof
    fix d
    assume "d \<in> set (texts c)"
    then have "textContent d \<in> set (map textContent (fillLines (real cw / 2) y0 lh ls))"
      by (simp add: c_def)
    then have "textContent d \<in> set ls" by (simp only: fillLines_content)
    with fit show "m (font c) (textContent d)
                \<le> real (canvasWidth c) - (if ar = Some ''9:16'' then 100 else 200)
              \<or> (\<exists>w \<in> set (splitSpaces text). textContent d = w @ '' '')"
      by (simp add: c_def mw_def)
  qed
  have t5: "textY (hd (texts c)) + textY (last (texts c)) = real (canvasHeight c)"
    using fillLines_centred [OF ne, of "real cw / 2" "real ch" lh]
    by (simp add: c_def y0_def)
  have t6: "\<forall>k. Suc k < length (texts c) \<longrightarrow>
              textY (texts c ! Suc k) =
                textY (texts c ! k) + (if ar = Some ''9:16'' then 70 else 80) * 1.3"
  proof (intro allI impI)
    fix k
    assume "Suc k < length (texts c)"
    then have k: "Suc k < length ls" "k < length ls" by (simp_all add: c_def fillLines_length)
    show "textY (texts c ! Suc k) =
                textY (texts c ! k) + (if ar = Some ''9:16'' then 70 else 80) * 1.3"
      using fillLines_y [OF k(1), of "real cw / 2" y0 lh] fillLines_y [OF k(2), of "real cw / 2" y0 lh]
      by (simp add: c_def lh_def algebra_simps)
  qed
  have props: "canvasWidth c = (if ar = Some ''9:16'' then 1080 else 1920)
        \<and> canvasHeight c = (if ar = Some ''9:16'' then 1920 else 1080)
        \<and> background c = ''#000000'' \<and> textFillStyle c = ''#FFFFFF''
        \<and> textAlign c = ''center'' \<and> textBaseline c = ''middle''
        \<and> font c = (if ar = Some ''9:16'' then ''bold 70px Arial, sans-serif''
                    else ''bold 80px Arial, sans-serif'')"
    by (simp add: c_def cw_def ch_def fn_def)
  show ?thesis
    apply (intro conjI generateTitleCard_no_context)
    apply (rule exI [of _ c])
    apply (intro conjI res t1 t2 t3 t4 t5 t6)
    using props by simp_all
qed

theorem C8_title_card_witness:
  "generateTitleCard False (\<lambda>f t. real (length t) * 50) ''Hello brave new world''
      (Some ''9:16'') = EmptyString
   \<and> (\<exists>c. generateTitleCard True (\<lambda>f t. real (length t) * 50) ''Hello brave new world''
          (Some ''9:16'') = PngDataUrl c
        \<and> canvasWidth c = 1080 \<and> canvasHeight c = 1920 \<and> background c = ''#000000''
        \<and> texts c =
            [\<lparr>textContent = ''Hello brave new '', textX = 540, textY = 1829 / 2\<rparr>,
             \<lparr>textContent = ''world '', textX = 540, textY = 2011 / 2\<rparr>]
        \<and> concat (map textContent (texts c)) = ''Hello brave new world ''
        \<and> textY (hd (texts c)) + textY (last (texts c)) = 1920)"
proof -
  let ?m = "\<lambda>(f::string) (t::string). real (length t) * 50"
  from C8_title_card [of ?m "''Hello brave new world''" "Some ''9:16''"]
  obtain c where
    no: "generateTitleCard False ?m ''Hello brave new world'' (Some ''9:16'') = EmptyString"
    and res: "generateTitleCard True ?m ''Hello brave new world'' (Some ''9:16'') = PngDataUrl c"
    and w: "canvasWidth c = 1080" and h: "canvasHeight c = 1920"
    and bg: "background c = ''#000000''"
    and cat: "concat (map textContent (texts c)) = ''Hello brave new world ''"
    and ctr: "textY (hd (texts c)) + textY (last (texts c)) = real (canvasHeight c)"
    by auto
  have ev: "generateTitleCard True ?m ''Hello brave new world'' (Some ''9:16'') =
     PngDataUrl
       \<lparr>canvasWidth = 1080, canvasHeight = 1920, background = ''#000000'',
        textFillStyle = ''#FFFFFF'', font = ''bold 70px Arial, sans-serif'',
        textAlign = ''center'', textBaseline = ''middle'',
        texts =
          [\<lparr>textContent = ''Hello brave new '', textX = 540, textY = 1829 / 2\<rparr>,
           \<lparr>textContent = ''world '', textX = 540, textY = 2011 / 2\<rparr>]\<rparr>"
    by (simp add: generateTitleCard_def Let_def)
  from res ev have "c =
       \<lparr>canvasWidth = 1080, canvasHeight = 1920, background = ''#000000'',
        textFillStyle = ''#FFFFFF'', font = ''bold 70px Arial, sans-serif'',
        textAlign = ''center'', textBaseline = ''middle'',
        texts =
          [\<lparr>textContent = ''Hello brave new '', textX = 540, textY = 1829 / 2\<rparr>,
           \<lparr>textContent = ''world '', textX = 540, textY = 2011 / 2\<rparr>]\<rparr>"
    by simp
  then have tx: "texts c =
          [\<lparr>textContent = ''Hello brave new '', textX = 540, textY = 1829 / 2\<rparr>,
           \<lparr>textContent = ''world '', textX = 540, textY = 2011 / 2\<rparr>]"
    by (elim ssubst) simp
  from ctr h have ctr': "textY (hd (texts c)) + textY (last (texts c)) = 1920" by simp
  from no res w h bg tx cat ctr' show ?thesis by blast
qed

end
